theory Spec2Isabelle
  imports Complex_Main
begin

section \<open>Order (Order.hpp, Order.cpp)\<close>

text \<open>
  The three enums of Order.hpp, with the constructors in the order of the source.
\<close>

datatype OrderType = LIMIT | MARKET | STOP_LOSS

datatype OrderSide = BUY | SELL

datatype OrderStatus = PENDING | PARTIAL_FILL | FILLED | CANCELLED | REJECTED | TRIGGERED

text \<open>
  The fields of class Order. The two \<open>double\<close> fields are reals: the code only stores,
  copies and compares prices (no arithmetic on them), and a NaN is not considered.
  The \<open>int\<close> quantities are mathematical integers: the only arithmetic on them is the
  subtraction in \<open>fillOrder\<close>, guarded so that it stays between 0 and the old value.
  The field \<open>type\<close> is called \<open>otype\<close>.
\<close>

record Order =
  orderId :: string
  userId :: string
  symbol :: string
  otype :: OrderType
  side :: OrderSide
  price :: real
  quantity :: int
  remainingQuantity :: int
  status :: OrderStatus
  timestamp :: int
  triggerPrice :: real

text \<open>\<open>std::invalid_argument\<close> with its message: the only exception the code throws.\<close>

datatype error = invalid_argument string

text \<open>
  The constructor \<open>Order::Order\<close>. The member initialisers run first, the validation
  after them, in the order of the source. \<open>getCurrentTimestamp()\<close> reads the clock; the
  reading is the last argument \<open>now\<close>.
\<close>

definition Order_ctor ::
  "string \<Rightarrow> string \<Rightarrow> string \<Rightarrow> OrderType \<Rightarrow> OrderSide \<Rightarrow> real \<Rightarrow> int \<Rightarrow> real \<Rightarrow> int
    \<Rightarrow> error + Order" where
  "Order_ctor oid uid smb ty sd p q trig now =
     (if oid = [] then Inl (invalid_argument ''Order ID cannot be empty'')
      else if uid = [] then Inl (invalid_argument ''User ID cannot be empty'')
      else if smb = [] then Inl (invalid_argument ''Symbol cannot be empty'')
      else if q \<le> 0 then Inl (invalid_argument ''Quantity must be positive'')
      else if ty = LIMIT \<and> p \<le> 0 then
        Inl (invalid_argument ''Limit order price must be positive'')
      else if ty = STOP_LOSS \<and> trig \<le> 0 then
        Inl (invalid_argument ''Stop-loss trigger price must be positive'')
      else Inr \<lparr>orderId = oid, userId = uid, symbol = smb, otype = ty, side = sd,
                price = p, quantity = q, remainingQuantity = q, status = PENDING,
                timestamp = now, triggerPrice = trig\<rparr>)"

definition isBuy :: "Order \<Rightarrow> bool" where
  "isBuy ord = (side ord = BUY)"

definition isSell :: "Order \<Rightarrow> bool" where
  "isSell ord = (side ord = SELL)"

definition isLimit :: "Order \<Rightarrow> bool" where
  "isLimit ord = (otype ord = LIMIT)"

definition isMarket :: "Order \<Rightarrow> bool" where
  "isMarket ord = (otype ord = MARKET)"

definition isStopLoss :: "Order \<Rightarrow> bool" where
  "isStopLoss ord = (otype ord = STOP_LOSS)"

text \<open>
  \<open>Order::fillOrder\<close>: the new state of the order and the returned flag, or the
  exception.
\<close>

definition fillOrder :: "int \<Rightarrow> Order \<Rightarrow> error + (bool \<times> Order)" where
  "fillOrder filledQuantity ord =
     (if filledQuantity \<le> 0 \<or> filledQuantity > remainingQuantity ord then
        Inl (invalid_argument ''Invalid filled quantity'')
      else
        let ord1 = ord\<lparr>remainingQuantity := remainingQuantity ord - filledQuantity\<rparr>
        in if remainingQuantity ord1 = 0 then Inr (True, ord1\<lparr>status := FILLED\<rparr>)
           else Inr (False, ord1\<lparr>status := PARTIAL_FILL\<rparr>))"

text \<open>\<open>Order::isCompatibleWith\<close>, check by check.\<close>

definition isCompatibleWith :: "Order \<Rightarrow> Order \<Rightarrow> bool" where
  "isCompatibleWith this other =
     (if symbol this \<noteq> symbol other then False
      else if side this = side other then False
      else if remainingQuantity this \<le> 0 \<or> remainingQuantity other \<le> 0 then False
      else if status this = FILLED \<or> status this = CANCELLED \<or>
              status other = FILLED \<or> status other = CANCELLED then False
      else if isBuy this \<and> isSell other then
        (if isMarket this \<or> isMarket other then True else price this \<ge> price other)
      else if isSell this \<and> isBuy other then
        (if isMarket this \<or> isMarket other then True else price this \<le> price other)
      else False)"

text \<open>
  The comparators of the two priority queues (Order.hpp). The comparator is true of
  \<open>a\<close> and \<open>b\<close> when \<open>a\<close> yields to \<open>b\<close>: \<open>b\<close> has the better price, or the same price
  and the earlier timestamp.
\<close>

definition BuyOrderComparator :: "Order \<Rightarrow> Order \<Rightarrow> bool" where
  "BuyOrderComparator a b =
     (if price a \<noteq> price b then price a < price b else timestamp a > timestamp b)"

definition SellOrderComparator :: "Order \<Rightarrow> Order \<Rightarrow> bool" where
  "SellOrderComparator a b =
     (if price a \<noteq> price b then price a > price b else timestamp a > timestamp b)"

section \<open>Trades, the priority queues and the AVL tree (OrderBook.hpp, OrderBook.cpp)\<close>

text \<open>
  Orders are shared objects: the caller, the two priority queues, the two maps and the
  stop-loss trees all hold \<open>std::shared_ptr<Order>\<close> to the same object, and a fill or a
  cancellation through one pointer is seen through all of them. An \<open>OrderPtr\<close> is
  therefore an address, and the objects live in a store (\<open>mem\<close> below).
\<close>

type_synonym OrderPtr = nat

text \<open>
  struct Trade. Its \<open>timestamp\<close>, a reading of the clock when the trade is built, is
  left out; the fields \<open>symbol\<close>, \<open>price\<close> and \<open>quantity\<close> carry the prefix \<open>trade\<close>.
\<close>

record Trade =
  tradeId :: string
  buyOrderId :: string
  sellOrderId :: string
  tradeSymbol :: string
  tradePrice :: real
  tradeQuantity :: int

text \<open>
  \<open>std::priority_queue\<close> is library code, modelled by its contract. The queue is the
  list of its elements in the order they were pushed. \<open>top()\<close> of a non-empty queue
  \<open>x # xs\<close> is \<open>pq_top cmp x xs\<close>: an element that yields to no other one under the
  comparator \<open>cmp\<close>; among several such elements the library leaves the choice open and
  the model takes the one pushed first. \<open>pop()\<close> removes that element, \<open>push\<close> appends.
\<close>

fun pq_top :: "('a \<Rightarrow> 'a \<Rightarrow> bool) \<Rightarrow> 'a \<Rightarrow> 'a list \<Rightarrow> 'a" where
  "pq_top cmp m [] = m"
| "pq_top cmp m (y # ys) = pq_top cmp (if cmp m y then y else m) ys"

definition pq_pop :: "('a \<Rightarrow> 'a \<Rightarrow> bool) \<Rightarrow> 'a list \<Rightarrow> 'a list" where
  "pq_pop cmp q = (case q of [] \<Rightarrow> [] | x # xs \<Rightarrow> remove1 (pq_top cmp x xs) q)"

definition pq_push :: "'a \<Rightarrow> 'a list \<Rightarrow> 'a list" where
  "pq_push a q = q @ [a]"

text \<open>
  The AVL tree of OrderBook.hpp: a node holds \<open>data\<close>, \<open>left\<close>, \<open>right\<close> and \<open>height\<close>;
  \<open>Null\<close> is the null pointer. The stored height is only ever 1 or one more than a
  maximum of stored heights, so it is a natural number.
\<close>

datatype 'a AVLNode = Null | Node 'a "'a AVLNode" "'a AVLNode" nat

fun getHeight :: "'a AVLNode \<Rightarrow> nat" where
  "getHeight Null = 0"
| "getHeight (Node d l r h) = h"

fun getBalance :: "'a AVLNode \<Rightarrow> int" where
  "getBalance Null = 0"
| "getBalance (Node d l r h) = int (getHeight l) - int (getHeight r)"

text \<open>
  The two rotations. Each dereferences a child of its argument; the last equation is
  the case where that child is null, in which the source has no defined behaviour. The
  model returns the node as it is there.
\<close>

fun rotateRight :: "'a AVLNode \<Rightarrow> 'a AVLNode" where
  "rotateRight (Node yd (Node xd xl T2 xh) yr yh) =
     (let y = Node yd T2 yr (max (getHeight T2) (getHeight yr) + 1)
      in Node xd xl y (max (getHeight xl) (getHeight y) + 1))"
| "rotateRight t = t"

fun rotateLeft :: "'a AVLNode \<Rightarrow> 'a AVLNode" where
  "rotateLeft (Node xd xl (Node yd T2 yr yh) xh) =
     (let x = Node xd xl T2 (max (getHeight xl) (getHeight T2) + 1)
      in Node yd x yr (max (getHeight x) (getHeight yr) + 1))"
| "rotateLeft t = t"

text \<open>
  \<open>node->left->data\<close> and \<open>node->right->data\<close> in the four rebalancing tests: the test
  is only evaluated behind \<open>balance > 1\<close> (or \<open>balance < -1\<close>), where the child is not
  null; \<open>childComp\<close> is the test on the child's data, false on a null child.
\<close>

fun childComp :: "('a \<Rightarrow> bool) \<Rightarrow> 'a AVLNode \<Rightarrow> bool" where
  "childComp f Null = False"
| "childComp f (Node d l r h) = f d"

text \<open>
  The last part of \<open>AVLTree::insert(node, data)\<close>, after the recursive call has stored
  the new child: \<open>d\<close>, \<open>l\<close> and \<open>r\<close> are the node's data and its two children then. The
  height is updated and the four rotation cases follow.
\<close>

definition rebalance :: "('a \<Rightarrow> 'a \<Rightarrow> bool) \<Rightarrow> 'a \<Rightarrow> 'a \<Rightarrow> 'a AVLNode \<Rightarrow> 'a AVLNode \<Rightarrow> 'a AVLNode" where
  "rebalance cmp dat d l r =
     (let h = 1 + max (getHeight l) (getHeight r);
          balance = getBalance (Node d l r h)
      in if balance > 1 \<and> childComp (\<lambda>ld. cmp dat ld) l then rotateRight (Node d l r h)
         else if balance < -1 \<and> childComp (\<lambda>rd. cmp rd dat) r then rotateLeft (Node d l r h)
         else if balance > 1 \<and> childComp (\<lambda>ld. cmp ld dat) l then
           rotateRight (Node d (rotateLeft l) r h)
         else if balance < -1 \<and> childComp (\<lambda>rd. cmp dat rd) r then
           rotateLeft (Node d l (rotateRight r) h)
         else Node d l r h)"

text \<open>\<open>AVLTree::insert(node, data)\<close>; an equal key leaves the tree as it is.\<close>

fun AVL_insert :: "('a \<Rightarrow> 'a \<Rightarrow> bool) \<Rightarrow> 'a AVLNode \<Rightarrow> 'a \<Rightarrow> 'a AVLNode" where
  "AVL_insert cmp Null dat = Node dat Null Null 1"
| "AVL_insert cmp (Node d l r h) dat =
     (if cmp dat d then rebalance cmp dat d (AVL_insert cmp l dat) r
      else if cmp d dat then rebalance cmp dat d l (AVL_insert cmp r dat)
      else Node d l r h)"

text \<open>The elements of a tree, for stating what is in a stop-loss book.\<close>

fun elems :: "'a AVLNode \<Rightarrow> 'a set" where
  "elems Null = {}"
| "elems (Node d l r h) = insert d (elems l \<union> elems r)"

text \<open>The two comparators of the stop-loss trees, on the orders pointed to.\<close>

definition StopLossBuyComparator :: "Order \<Rightarrow> Order \<Rightarrow> bool" where
  "StopLossBuyComparator a b = (triggerPrice a < triggerPrice b)"

definition StopLossSellComparator :: "Order \<Rightarrow> Order \<Rightarrow> bool" where
  "StopLossSellComparator a b = (triggerPrice a > triggerPrice b)"

section \<open>OrderBook (OrderBook.hpp, OrderBook.cpp)\<close>

text \<open>
  The members of class OrderBook, and with them the store \<open>mem\<close> of the order objects
  and the function-local static \<open>tradeIdCounter\<close> of \<open>generateTradeId\<close>. The members
  \<open>buyPriceLevels\<close> and \<open>sellPriceLevels\<close> are never read or written by the code and are
  left out, as is the mutex: the operations are modelled one at a time.
  \<open>std::unordered_map\<close> is a map; the member \<open>symbol\<close> is called \<open>bookSymbol\<close>.
\<close>

record OrderBook =
  mem :: "OrderPtr \<Rightarrow> Order"
  bookSymbol :: string
  buyOrders :: "OrderPtr list"
  sellOrders :: "OrderPtr list"
  orderMap :: "string \<rightharpoonup> OrderPtr"
  userOrders :: "string \<rightharpoonup> OrderPtr list"
  buyStopLossOrders :: "OrderPtr AVLNode"
  sellStopLossOrders :: "OrderPtr AVLNode"
  totalTrades :: int
  totalVolume :: real
  lastTradePrice :: real
  tradeIdCounter :: int

text \<open>\<open>std::to_string\<close> on a \<open>long long\<close>: the decimal digits, with a sign.\<close>

fun digits :: "nat \<Rightarrow> string" where
  "digits n =
     (if n < 10 then [''0123456789'' ! n]
      else digits (n div 10) @ [''0123456789'' ! (n mod 10)])"

definition to_string :: "int \<Rightarrow> string" where
  "to_string n = (if n < 0 then CHR ''-'' # digits (nat (- n)) else digits (nat n))"

definition generateTradeId :: "OrderBook \<Rightarrow> string \<times> OrderBook" where
  "generateTradeId ob =
     (let ob1 = ob\<lparr>tradeIdCounter := tradeIdCounter ob + 1\<rparr>
      in (''TRADE_'' @ bookSymbol ob1 @ ''_'' @ to_string (tradeIdCounter ob1), ob1))"

text \<open>
  \<open>OrderBook::executeTrade\<close>: both orders are filled through their pointers, the buy
  order first; an exception of \<open>fillOrder\<close> leaves the function.
\<close>

definition executeTrade ::
  "OrderPtr \<Rightarrow> OrderPtr \<Rightarrow> real \<Rightarrow> int \<Rightarrow> OrderBook \<Rightarrow> error + (Trade \<times> OrderBook)" where
  "executeTrade buyOrder sellOrder prc qty ob =
     (case fillOrder qty (mem ob buyOrder) of
        Inl e \<Rightarrow> Inl e
      | Inr (_, b) \<Rightarrow>
          let ob1 = ob\<lparr>mem := (mem ob)(buyOrder := b)\<rparr>
          in (case fillOrder qty (mem ob1 sellOrder) of
                Inl e \<Rightarrow> Inl e
              | Inr (_, s) \<Rightarrow>
                  let ob2 = ob1\<lparr>mem := (mem ob1)(sellOrder := s)\<rparr>;
                      tid_ob3 = generateTradeId ob2;
                      ob3 = snd tid_ob3;
                      trade = \<lparr>tradeId = fst tid_ob3,
                               buyOrderId = orderId (mem ob3 buyOrder),
                               sellOrderId = orderId (mem ob3 sellOrder),
                               tradeSymbol = bookSymbol ob3,
                               tradePrice = prc, tradeQuantity = qty\<rparr>
                  in Inr (trade, ob3\<lparr>totalTrades := totalTrades ob3 + 1,
                                       totalVolume := totalVolume ob3 + of_int qty,
                                       lastTradePrice := prc\<rparr>)))"

text \<open>
  \<open>OrderBook::addToOrderBook\<close>: the id map, the user's list (created empty by
  \<open>operator[]\<close> when the user has none), and the priority queue of the order's side.
\<close>

definition addToOrderBook :: "OrderPtr \<Rightarrow> OrderBook \<Rightarrow> OrderBook" where
  "addToOrderBook ord ob =
     (let ob1 = ob\<lparr>orderMap := (orderMap ob)(orderId (mem ob ord) \<mapsto> ord)\<rparr>;
          u = userId (mem ob1 ord);
          ob2 = ob1\<lparr>userOrders := (userOrders ob1)
                   (u \<mapsto> (case userOrders ob1 u of None \<Rightarrow> [] | Some l \<Rightarrow> l) @ [ord])\<rparr>
      in if isBuy (mem ob2 ord) then ob2\<lparr>buyOrders := pq_push ord (buyOrders ob2)\<rparr>
         else ob2\<lparr>sellOrders := pq_push ord (sellOrders ob2)\<rparr>)"

text \<open>
  \<open>OrderBook::removeFromOrderBook\<close>: the id map and the user's list; the priority
  queues and the stop-loss trees are not touched.
\<close>

definition removeFromOrderBook :: "string \<Rightarrow> OrderBook \<Rightarrow> OrderBook" where
  "removeFromOrderBook oid ob =
     (case orderMap ob oid of
        None \<Rightarrow> ob
      | Some ord \<Rightarrow>
          let ob1 = ob\<lparr>orderMap := (orderMap ob)(oid := None)\<rparr>;
              u = userId (mem ob1 ord);
              userOrdersList = (case userOrders ob1 u of None \<Rightarrow> [] | Some l \<Rightarrow> l)
          in ob1\<lparr>userOrders := (userOrders ob1)
                 (u \<mapsto> filter (\<lambda>p. \<not> orderId (mem ob1 p) = oid) userOrdersList)\<rparr>)"

text \<open>\<open>OrderBook::cancelOrder\<close>: the returned flag and the new state.\<close>

definition cancelOrder :: "string \<Rightarrow> OrderBook \<Rightarrow> bool \<times> OrderBook" where
  "cancelOrder oid ob =
     (case orderMap ob oid of
        None \<Rightarrow> (False, ob)
      | Some ord \<Rightarrow>
          let ob1 = ob\<lparr>mem := (mem ob)(ord := (mem ob ord)\<lparr>status := CANCELLED\<rparr>)\<rparr>
          in (True, removeFromOrderBook oid ob1))"

text \<open>\<open>OrderBook::checkStopLossOrders\<close>: the body of the source is empty.\<close>

definition checkStopLossOrders :: "real \<Rightarrow> OrderBook \<Rightarrow> OrderBook" where
  "checkStopLossOrders currentPrice ob = ob"

definition getBestBid :: "OrderBook \<Rightarrow> real" where
  "getBestBid ob =
     (case buyOrders ob of
        [] \<Rightarrow> 0
      | x # xs \<Rightarrow>
          price (mem ob (pq_top (\<lambda>a b. BuyOrderComparator (mem ob a) (mem ob b)) x xs)))"

definition getBestAsk :: "OrderBook \<Rightarrow> real" where
  "getBestAsk ob =
     (case sellOrders ob of
        [] \<Rightarrow> 0
      | x # xs \<Rightarrow>
          price (mem ob (pq_top (\<lambda>a b. SellOrderComparator (mem ob a) (mem ob b)) x xs)))"

definition getOrder :: "string \<Rightarrow> OrderBook \<Rightarrow> OrderPtr option" where
  "getOrder oid ob = orderMap ob oid"

definition getUserOrders :: "string \<Rightarrow> OrderBook \<Rightarrow> OrderPtr list" where
  "getUserOrders uid ob = (case userOrders ob uid of None \<Rightarrow> [] | Some l \<Rightarrow> l)"

subsection \<open>Matching\<close>

text \<open>
  The first \<open>while\<close> loop of \<open>OrderBook::matchOrder\<close>, for an incoming buy order, as a
  recursive function: \<open>trades\<close> is the vector built so far. The loop ends because each
  trade lowers the remaining quantity of the incoming order: a trade that
  \<open>executeTrade\<close> completes has a positive quantity and takes it from both orders, and
  two compatible orders are two objects, since their sides differ.
\<close>

function matchBuyLoop ::
  "OrderPtr \<Rightarrow> Trade list \<Rightarrow> OrderBook \<Rightarrow> error + (Trade list \<times> OrderBook)" where
  "matchBuyLoop incomingOrder trades ob =
     (case sellOrders ob of
        [] \<Rightarrow> Inr (trades, ob)
      | x # xs \<Rightarrow>
          if \<not> remainingQuantity (mem ob incomingOrder) > 0 then Inr (trades, ob)
          else
            let bestSellOrder = pq_top (\<lambda>a b. SellOrderComparator (mem ob a) (mem ob b)) x xs
            in if \<not> isCompatibleWith (mem ob incomingOrder) (mem ob bestSellOrder) then
                 Inr (trades, ob)
               else
                 let ob1 = ob\<lparr>sellOrders :=
                             pq_pop (\<lambda>a b. SellOrderComparator (mem ob a) (mem ob b))
                               (sellOrders ob)\<rparr>;
                     tradePrice =
                       (if isMarket (mem ob1 bestSellOrder) then
                          (if isMarket (mem ob1 incomingOrder) then lastTradePrice ob1
                           else price (mem ob1 incomingOrder))
                        else price (mem ob1 bestSellOrder));
                     tradeQuantity = min (remainingQuantity (mem ob1 incomingOrder))
                                         (remainingQuantity (mem ob1 bestSellOrder))
                 in (case executeTrade incomingOrder bestSellOrder tradePrice tradeQuantity ob1 of
                       Inl e \<Rightarrow> Inl e
                     | Inr (trade, ob2) \<Rightarrow>
                         matchBuyLoop incomingOrder (trades @ [trade])
                           (if remainingQuantity (mem ob2 bestSellOrder) > 0 then
                              ob2\<lparr>sellOrders := pq_push bestSellOrder (sellOrders ob2)\<rparr>
                            else removeFromOrderBook (orderId (mem ob2 bestSellOrder)) ob2)))"
  by pat_completeness auto
termination
proof (relation "measure (\<lambda>(inc, trades, ob). nat (remainingQuantity (mem ob inc)))", goal_cases)
  case 1
  show ?case by simp
next
  case (2 incomingOrder trades ob x xs bestSellOrder ob1 tradePrice tradeQuantity r trade ob2)
  have q: "\<And>b s prc q ob t ob2. executeTrade b s prc q ob = Inr (t, ob2) \<Longrightarrow> 0 < q"
    unfolding executeTrade_def fillOrder_def
    by (auto split: sum.splits if_splits prod.splits simp: Let_def)
  have rb: "\<And>b s prc q ob t ob2. executeTrade b s prc q ob = Inr (t, ob2) \<Longrightarrow> b \<noteq> s \<Longrightarrow>
      remainingQuantity (mem ob2 b) = remainingQuantity (mem ob b) - q"
    unfolding executeTrade_def fillOrder_def generateTradeId_def
    by (auto split: sum.splits if_splits prod.splits simp: Let_def)
  have rs: "\<And>b s prc q ob t ob2. executeTrade b s prc q ob = Inr (t, ob2) \<Longrightarrow> b \<noteq> s \<Longrightarrow>
      remainingQuantity (mem ob2 s) = remainingQuantity (mem ob s) - q"
    unfolding executeTrade_def fillOrder_def generateTradeId_def
    by (auto split: sum.splits if_splits prod.splits simp: Let_def)
  have rm: "\<And>oid ob. mem (removeFromOrderBook oid ob) = mem ob"
    unfolding removeFromOrderBook_def by (simp add: Let_def split: option.splits)
  have ne: "\<And>m a b. isCompatibleWith (m a) (m b) \<Longrightarrow> a \<noteq> b"
    unfolding isCompatibleWith_def by (auto split: if_splits)
  from 2 show ?case
    using
      q [of incomingOrder bestSellOrder tradePrice tradeQuantity ob1 trade ob2]
      rb [of incomingOrder bestSellOrder tradePrice tradeQuantity ob1 trade ob2]
      ne [of "mem ob" incomingOrder bestSellOrder] rm
    by auto
qed

declare matchBuyLoop.simps [simp del]

text \<open>The second loop, for an incoming sell order against the buy queue.\<close>

function matchSellLoop ::
  "OrderPtr \<Rightarrow> Trade list \<Rightarrow> OrderBook \<Rightarrow> error + (Trade list \<times> OrderBook)" where
  "matchSellLoop incomingOrder trades ob =
     (case buyOrders ob of
        [] \<Rightarrow> Inr (trades, ob)
      | x # xs \<Rightarrow>
          if \<not> remainingQuantity (mem ob incomingOrder) > 0 then Inr (trades, ob)
          else
            let bestBuyOrder = pq_top (\<lambda>a b. BuyOrderComparator (mem ob a) (mem ob b)) x xs
            in if \<not> isCompatibleWith (mem ob incomingOrder) (mem ob bestBuyOrder) then
                 Inr (trades, ob)
               else
                 let ob1 = ob\<lparr>buyOrders :=
                             pq_pop (\<lambda>a b. BuyOrderComparator (mem ob a) (mem ob b))
                               (buyOrders ob)\<rparr>;
                     tradePrice =
                       (if isMarket (mem ob1 bestBuyOrder) then
                          (if isMarket (mem ob1 incomingOrder) then lastTradePrice ob1
                           else price (mem ob1 incomingOrder))
                        else price (mem ob1 bestBuyOrder));
                     tradeQuantity = min (remainingQuantity (mem ob1 incomingOrder))
                                         (remainingQuantity (mem ob1 bestBuyOrder))
                 in (case executeTrade bestBuyOrder incomingOrder tradePrice tradeQuantity ob1 of
                       Inl e \<Rightarrow> Inl e
                     | Inr (trade, ob2) \<Rightarrow>
                         matchSellLoop incomingOrder (trades @ [trade])
                           (if remainingQuantity (mem ob2 bestBuyOrder) > 0 then
                              ob2\<lparr>buyOrders := pq_push bestBuyOrder (buyOrders ob2)\<rparr>
                            else removeFromOrderBook (orderId (mem ob2 bestBuyOrder)) ob2)))"
  by pat_completeness auto
termination
proof (relation "measure (\<lambda>(inc, trades, ob). nat (remainingQuantity (mem ob inc)))", goal_cases)
  case 1
  show ?case by simp
next
  case (2 incomingOrder trades ob x xs bestBuyOrder ob1 tradePrice tradeQuantity r trade ob2)
  have q: "\<And>b s prc q ob t ob2. executeTrade b s prc q ob = Inr (t, ob2) \<Longrightarrow> 0 < q"
    unfolding executeTrade_def fillOrder_def
    by (auto split: sum.splits if_splits prod.splits simp: Let_def)
  have rb: "\<And>b s prc q ob t ob2. executeTrade b s prc q ob = Inr (t, ob2) \<Longrightarrow> b \<noteq> s \<Longrightarrow>
      remainingQuantity (mem ob2 b) = remainingQuantity (mem ob b) - q"
    unfolding executeTrade_def fillOrder_def generateTradeId_def
    by (auto split: sum.splits if_splits prod.splits simp: Let_def)
  have rs: "\<And>b s prc q ob t ob2. executeTrade b s prc q ob = Inr (t, ob2) \<Longrightarrow> b \<noteq> s \<Longrightarrow>
      remainingQuantity (mem ob2 s) = remainingQuantity (mem ob s) - q"
    unfolding executeTrade_def fillOrder_def generateTradeId_def
    by (auto split: sum.splits if_splits prod.splits simp: Let_def)
  have rm: "\<And>oid ob. mem (removeFromOrderBook oid ob) = mem ob"
    unfolding removeFromOrderBook_def by (simp add: Let_def split: option.splits)
  have ne: "\<And>m a b. isCompatibleWith (m a) (m b) \<Longrightarrow> a \<noteq> b"
    unfolding isCompatibleWith_def by (auto split: if_splits)
  from 2 show ?case
    using
      q [of bestBuyOrder incomingOrder tradePrice tradeQuantity ob1 trade ob2]
      rs [of bestBuyOrder incomingOrder tradePrice tradeQuantity ob1 trade ob2]
      ne [of "mem ob" incomingOrder bestBuyOrder] rm
    by auto
qed

declare matchSellLoop.simps [simp del]

definition matchOrder :: "OrderPtr \<Rightarrow> OrderBook \<Rightarrow> error + (Trade list \<times> OrderBook)" where
  "matchOrder incomingOrder ob =
     (if isBuy (mem ob incomingOrder) then matchBuyLoop incomingOrder [] ob
      else matchSellLoop incomingOrder [] ob)"

text \<open>
  \<open>OrderBook::addOrder\<close>. The argument is \<open>None\<close> for a null pointer. A stop-loss order
  goes into the tree of its side and then through \<open>addToOrderBook\<close>, as in the source.
  The comparators of the trees and of the queues read the orders through the pointers.
\<close>

definition addOrder :: "OrderPtr option \<Rightarrow> OrderBook \<Rightarrow> error + (Trade list \<times> OrderBook)" where
  "addOrder order ob =
     (case order of
        None \<Rightarrow> Inl (invalid_argument ''Order cannot be null'')
      | Some ord \<Rightarrow>
          if symbol (mem ob ord) \<noteq> bookSymbol ob then
            Inl (invalid_argument ''Order symbol does not match order book symbol'')
          else if isStopLoss (mem ob ord) then
            let ob1 =
                  (if isBuy (mem ob ord) then
                     ob\<lparr>buyStopLossOrders :=
                          AVL_insert (\<lambda>a b. StopLossBuyComparator (mem ob a) (mem ob b))
                            (buyStopLossOrders ob) ord\<rparr>
                   else
                     ob\<lparr>sellStopLossOrders :=
                          AVL_insert (\<lambda>a b. StopLossSellComparator (mem ob a) (mem ob b))
                            (sellStopLossOrders ob) ord\<rparr>)
            in Inr ([], addToOrderBook ord ob1)
          else
            (case matchOrder ord ob of
               Inl e \<Rightarrow> Inl e
             | Inr (trades, ob1) \<Rightarrow>
                 let ob2 = (if remainingQuantity (mem ob1 ord) > 0 then addToOrderBook ord ob1
                            else ob1);
                     ob3 = (if trades \<noteq> [] then
                              checkStopLossOrders (tradePrice (last trades)) ob2
                            else ob2)
                 in Inr (trades, ob3)))"

text \<open>The constructor \<open>OrderBook::OrderBook\<close>, on a store of order objects.\<close>

definition OrderBook_ctor :: "string \<Rightarrow> (OrderPtr \<Rightarrow> Order) \<Rightarrow> OrderBook" where
  "OrderBook_ctor smb m =
     \<lparr>mem = m, bookSymbol = smb, buyOrders = [], sellOrders = [], orderMap = Map.empty,
      userOrders = Map.empty, buyStopLossOrders = Null, sellStopLossOrders = Null,
      totalTrades = 0, totalVolume = 0, lastTradePrice = 0, tradeIdCounter = 0\<rparr>"

section \<open>Auxiliary definitions: what the statements are written with\<close>

text \<open>
  What \<open>fillOrder\<close> makes of an order when it does not throw, and the part of an order
  that no operation of the book changes (everything but the remaining quantity and the
  status).
\<close>

definition filled :: "int \<Rightarrow> Order \<Rightarrow> Order" where
  "filled q ord = ord\<lparr>remainingQuantity := remainingQuantity ord - q,
      status := (if remainingQuantity ord - q = 0 then FILLED else PARTIAL_FILL)\<rparr>"

definition static :: "Order \<Rightarrow> Order" where
  "static ord = ord\<lparr>remainingQuantity := 0, status := PENDING\<rparr>"

text \<open>
  The price rule that the trades of one matching pass are checked against: \<open>sel\<close> reads
  the maker's id off a trade, \<open>M\<close> are the resting orders, \<open>tk\<close> is the taker and \<open>lp\<close>
  the last trade price before the first trade of the list.
\<close>

fun priced :: "(Trade \<Rightarrow> string) \<Rightarrow> Order set \<Rightarrow> Order \<Rightarrow> real \<Rightarrow> Trade list \<Rightarrow> bool" where
  "priced sel M tk lp [] = True"
| "priced sel M tk lp (t # ts) =
     ((\<exists>m\<in>M. sel t = orderId m \<and>
          tradePrice t = (if otype m = MARKET then (if otype tk = MARKET then lp else price tk)
                          else price m)) \<and>
      priced sel M tk (tradePrice t) ts)"

text \<open>
  The price rule in the words of the specification: the maker's posted price, unless
  the maker is MARKET, in which case the taker's price when the taker is LIMIT, else the
  last trade price \<open>lp\<close>.
\<close>

definition policyPrice :: "Order \<Rightarrow> Order \<Rightarrow> real \<Rightarrow> real" where
  "policyPrice maker taker lp =
     (if otype maker = MARKET then (if otype taker = LIMIT then price taker else lp)
      else price maker)"

text \<open>
  The id of the maker on a trade, which is the sell order's for a buying taker and the
  buy order's for a selling one; and the order that a matching pass looks at first: the
  top of the queue opposite to the taker, when that queue is not empty.
\<close>

definition makerId :: "Order \<Rightarrow> Trade \<Rightarrow> string" where
  "makerId taker t = (if isBuy taker then sellOrderId t else buyOrderId t)"

definition oppositeTop :: "OrderBook \<Rightarrow> OrderPtr \<Rightarrow> OrderPtr option" where
  "oppositeTop ob taker =
     (if isBuy (mem ob taker) then
        (case sellOrders ob of
           [] \<Rightarrow> None
         | x # xs \<Rightarrow> Some (pq_top (\<lambda>a b. SellOrderComparator (mem ob a) (mem ob b)) x xs))
      else
        (case buyOrders ob of
           [] \<Rightarrow> None
         | x # xs \<Rightarrow> Some (pq_top (\<lambda>a b. BuyOrderComparator (mem ob a) (mem ob b)) x xs)))"

subsection \<open>Scenarios\<close>

text \<open>
  The order that \<open>Order::Order\<close> builds for user \<open>alice\<close> on symbol \<open>AAPL\<close>. In each
  scenario below the store holds the orders at the pointers 0, 1, 2, ... in the order of
  their construction, with the clock readings 1, 2, 3, ...; the arguments of
  \<open>scenario_order\<close> are the id, the type, the side, the price, the quantity, the trigger
  price and the clock reading.
\<close>

definition scenario_order ::
  "string \<Rightarrow> OrderType \<Rightarrow> OrderSide \<Rightarrow> real \<Rightarrow> int \<Rightarrow> real \<Rightarrow> int \<Rightarrow> Order" where
  "scenario_order oid ty sd p q trig now =
     \<lparr>orderId = oid, userId = ''alice'', symbol = ''AAPL'', otype = ty, side = sd,
      price = p, quantity = q, remainingQuantity = q, status = PENDING,
      timestamp = now, triggerPrice = trig\<rparr>"


text \<open>Scenario S4 of the specification: a seller at 99 and a buyer at 100.\<close>

definition s4_mem :: "OrderPtr \<Rightarrow> Order" where
  "s4_mem = (\<lambda>_. scenario_order ''S1'' LIMIT SELL 99 10 0 1)
              (1 := scenario_order ''B1'' LIMIT BUY 100 10 0 2)"

text \<open>Scenario S5 of the specification: a single MARKET BUY for 5.\<close>

definition m5_mem :: "OrderPtr \<Rightarrow> Order" where
  "m5_mem = (\<lambda>_. scenario_order ''M1'' MARKET BUY 0 5 0 1)"

text \<open>
  Scenario S6 of the specification: the seller at 120, the stop-loss buy order with
  trigger 100, the seeded seller at 100 and the buyer at 120.
\<close>

definition s6_mem :: "OrderPtr \<Rightarrow> Order" where
  "s6_mem = (\<lambda>_. scenario_order ''S120'' LIMIT SELL 120 10 0 1)
              (1 := scenario_order ''STOP'' STOP_LOSS BUY 0 10 100 2,
               2 := scenario_order ''S100'' LIMIT SELL 100 1 0 3,
               3 := scenario_order ''B120'' LIMIT BUY 120 1 0 4)"

text \<open>A MARKET SELL and a MARKET BUY, each for 5.\<close>

definition mm_mem :: "OrderPtr \<Rightarrow> Order" where
  "mm_mem = (\<lambda>_. scenario_order ''M1'' MARKET SELL 0 5 0 1)
              (1 := scenario_order ''M2'' MARKET BUY 0 5 0 2)"

text \<open>A seller at 100 for 3 and a MARKET BUY for 5.\<close>

definition mr_mem :: "OrderPtr \<Rightarrow> Order" where
  "mr_mem = (\<lambda>_. scenario_order ''S1'' LIMIT SELL 100 3 0 1)
              (1 := scenario_order ''M1'' MARKET BUY 0 5 0 2)"

text \<open>
  Two STOP_LOSS SELL orders with the trigger price 90 and the price 0, and a buyer
  at 100.
\<close>

definition st_mem :: "OrderPtr \<Rightarrow> Order" where
  "st_mem = (\<lambda>_. scenario_order ''ST1'' STOP_LOSS SELL 0 5 90 1)
              (1 := scenario_order ''ST2'' STOP_LOSS SELL 0 5 90 2,
               2 := scenario_order ''B1'' LIMIT BUY 100 5 0 3)"

text \<open>A single seller at 100.\<close>

definition cx_mem :: "OrderPtr \<Rightarrow> Order" where
  "cx_mem = (\<lambda>_. scenario_order ''S1'' LIMIT SELL 100 5 0 1)"

text \<open>Two sellers, at 90 and at 95, and a buyer at 100.\<close>

definition cr_mem :: "OrderPtr \<Rightarrow> Order" where
  "cr_mem = (\<lambda>_. scenario_order ''S1'' LIMIT SELL 90 5 0 1)
              (1 := scenario_order ''S2'' LIMIT SELL 95 5 0 2,
               2 := scenario_order ''B1'' LIMIT BUY 100 5 0 3)"

text \<open>A seller at 100 and a stop-loss buy order with trigger 100.\<close>

definition mp_mem :: "OrderPtr \<Rightarrow> Order" where
  "mp_mem = (\<lambda>_. scenario_order ''S1'' LIMIT SELL 100 5 0 1)
              (1 := scenario_order ''ST1'' STOP_LOSS BUY 0 5 100 2)"

section \<open>The order entity: construction and fills\<close>

text \<open>
  C9. The constructor throws exactly when the order id, the user id or the symbol is
  empty, the quantity is not positive, a LIMIT order has a non-positive price, or a
  STOP_LOSS order has a non-positive trigger price. Otherwise it builds the order from
  its arguments, with the remaining quantity equal to the quantity and status PENDING.
\<close>

theorem Order_ctor_validates:
  "(case Order_ctor oid uid smb ty sd p q trig now of
      Inl e \<Rightarrow>
        oid = [] \<or> uid = [] \<or> smb = [] \<or> q \<le> 0 \<or> (ty = LIMIT \<and> p \<le> 0) \<or>
        (ty = STOP_LOSS \<and> trig \<le> 0)
    | Inr ord \<Rightarrow>
        oid \<noteq> [] \<and> uid \<noteq> [] \<and> smb \<noteq> [] \<and> 0 < q \<and> (ty = LIMIT \<and> 0 < p \<or> ty \<noteq> LIMIT) \<and>
        (ty = STOP_LOSS \<and> 0 < trig \<or> ty \<noteq> STOP_LOSS) \<and>
        orderId ord = oid \<and> userId ord = uid \<and> symbol ord = smb \<and> otype ord = ty \<and>
        side ord = sd \<and> price ord = p \<and> triggerPrice ord = trig \<and>
        quantity ord = q \<and> remainingQuantity ord = quantity ord \<and> status ord = PENDING)"
  unfolding Order_ctor_def by (cases ty) (simp_all add: not_le)

theorem Order_ctor_validates_witness:
  "(\<exists>ord. Order_ctor ''S1'' ''alice'' ''AAPL'' LIMIT SELL 100 5 0 1 = Inr ord \<and>
      remainingQuantity ord = 5 \<and> status ord = PENDING) \<and>
   (\<exists>e. Order_ctor ''S1'' ''alice'' ''AAPL'' LIMIT SELL 0 5 0 1 = Inl e)"
  using
    Order_ctor_validates [where oid = "''S1''" and uid = "''alice''" and smb = "''AAPL''"
      and ty = LIMIT and sd = SELL and p = 100 and q = 5 and trig = 0 and now = 1]
    Order_ctor_validates [where oid = "''S1''" and uid = "''alice''" and smb = "''AAPL''"
      and ty = LIMIT and sd = SELL and p = 0 and q = 5 and trig = 0 and now = 1]
  by (auto split: sum.splits)

text \<open>
  C10. On an order with remaining quantity \<open>r > 0\<close> and for \<open>0 < n \<le> r\<close>, \<open>fillOrder n\<close>
  does not throw, lowers the remaining quantity by exactly \<open>n\<close> and touches no other
  field but the status; it returns true exactly when the remaining quantity has become
  0, and then the status is FILLED; otherwise it returns false and the status is
  PARTIAL_FILL.
\<close>

theorem fillOrder_exact:
  assumes "0 < remainingQuantity ord" and "0 < n" and "n \<le> remainingQuantity ord"
  shows "\<exists>full ord1. fillOrder n ord = Inr (full, ord1) \<and>
           remainingQuantity ord1 = remainingQuantity ord - n \<and>
           full = (remainingQuantity ord1 = 0) \<and>
           status ord1 = (if full then FILLED else PARTIAL_FILL) \<and>
           ord1 = ord\<lparr>remainingQuantity := remainingQuantity ord1, status := status ord1\<rparr>"
  using assms unfolding fillOrder_def by (simp add: Let_def)

theorem fillOrder_exact_witness:
  "fillOrder 5 \<lparr>orderId = ''S1'', userId = ''alice'', symbol = ''AAPL'', otype = LIMIT,
       side = SELL, price = 100, quantity = 5, remainingQuantity = 5, status = PENDING,
       timestamp = 1, triggerPrice = 0\<rparr>
     = Inr (True, \<lparr>orderId = ''S1'', userId = ''alice'', symbol = ''AAPL'', otype = LIMIT,
       side = SELL, price = 100, quantity = 5, remainingQuantity = 0, status = FILLED,
       timestamp = 1, triggerPrice = 0\<rparr>)"
  using fillOrder_exact [of "\<lparr>orderId = ''S1'', userId = ''alice'', symbol = ''AAPL'',
       otype = LIMIT, side = SELL, price = 100, quantity = 5, remainingQuantity = 5,
       status = PENDING, timestamp = 1, triggerPrice = 0\<rparr>" 5]
  by auto

section \<open>Properties of a matching pass\<close>

lemma fillOrder_filled:
  "0 < q \<Longrightarrow> q \<le> remainingQuantity ord \<Longrightarrow>
     fillOrder q ord = Inr (remainingQuantity ord - q = 0, filled q ord)"
  unfolding fillOrder_def filled_def by (simp add: Let_def)

lemma static_filled [simp]: "static (filled q ord) = static ord"
  by (simp add: static_def filled_def)

lemma static_fields:
  assumes "static a = static b"
  shows "orderId a = orderId b" and "userId a = userId b" and "symbol a = symbol b"
    and "otype a = otype b" and "side a = side b" and "price a = price b"
    and "quantity a = quantity b" and "timestamp a = timestamp b"
    and "triggerPrice a = triggerPrice b"
  using assms by (cases a; cases b; simp add: static_def)+

lemma executeTrade_success:
  assumes "0 < q" and "q \<le> remainingQuantity (mem ob b)"
    and "q \<le> remainingQuantity (mem ob s)" and "b \<noteq> s"
  shows "\<exists>t ob2. executeTrade b s prc q ob = Inr (t, ob2) \<and>
     mem ob2 = (mem ob)(b := filled q (mem ob b), s := filled q (mem ob s)) \<and>
     lastTradePrice ob2 = prc \<and> sellOrders ob2 = sellOrders ob \<and>
     buyOrders ob2 = buyOrders ob \<and> bookSymbol ob2 = bookSymbol ob \<and>
     buyOrderId t = orderId (mem ob b) \<and> sellOrderId t = orderId (mem ob s) \<and>
     tradePrice t = prc \<and> tradeQuantity t = q"
  using assms unfolding executeTrade_def generateTradeId_def
  by (simp add: fillOrder_filled Let_def filled_def)

lemma removeFromOrderBook_frame [simp]:
  "mem (removeFromOrderBook oid ob) = mem ob"
  "sellOrders (removeFromOrderBook oid ob) = sellOrders ob"
  "buyOrders (removeFromOrderBook oid ob) = buyOrders ob"
  "lastTradePrice (removeFromOrderBook oid ob) = lastTradePrice ob"
  "bookSymbol (removeFromOrderBook oid ob) = bookSymbol ob"
  unfolding removeFromOrderBook_def by (simp_all add: Let_def split: option.splits)

text \<open>
  The top of a priority queue is one of its elements, and when the comparator is
  transitive and irreflexive the top yields to no element of the queue.
\<close>

lemma pq_top_mem: "pq_top cmp m ys \<in> set (m # ys)"
  by (induction ys arbitrary: m) auto





text \<open>
  One pass through the body of the first loop: either the loop stops and returns what it
  has, or it trades with the top \<open>best\<close> of the sell queue and goes on from the state
  \<open>ob3\<close>, which is described field by field.
\<close>

lemma matchBuyLoop_unfold:
  obtains (stop) "matchBuyLoop inc trades ob = Inr (trades, ob)"
      "sellOrders ob = [] \<or>
       (\<exists>x xs. sellOrders ob = x # xs \<and>
          \<not> isCompatibleWith (mem ob inc)
              (mem ob (pq_top (\<lambda>a b. SellOrderComparator (mem ob a) (mem ob b)) x xs)))"
  | (step) x xs best q p trade ob3 where
      "sellOrders ob = x # xs"
      "best = pq_top (\<lambda>a b. SellOrderComparator (mem ob a) (mem ob b)) x xs"
      "isCompatibleWith (mem ob inc) (mem ob best)"
      "q = min (remainingQuantity (mem ob inc)) (remainingQuantity (mem ob best))"
      "p = (if isMarket (mem ob best) then
              (if isMarket (mem ob inc) then lastTradePrice ob else price (mem ob inc))
            else price (mem ob best))"
      "mem ob3 = (mem ob)(inc := filled q (mem ob inc), best := filled q (mem ob best))"
      "lastTradePrice ob3 = p"
      "sellOrders ob3 =
         (if q < remainingQuantity (mem ob best) then remove1 best (x # xs) @ [best]
          else remove1 best (x # xs))"
      "buyOrders ob3 = buyOrders ob"
      "bookSymbol ob3 = bookSymbol ob"
      "sellOrderId trade = orderId (mem ob best)"
      "buyOrderId trade = orderId (mem ob inc)"
      "tradePrice trade = p"
      "tradeQuantity trade = q"
      "matchBuyLoop inc trades ob = matchBuyLoop inc (trades @ [trade]) ob3"
proof (cases "sellOrders ob")
  case Nil
  then have "matchBuyLoop inc trades ob = Inr (trades, ob)"
    by (simp add: matchBuyLoop.simps)
  then show ?thesis using Nil by (intro stop) auto
next
  case (Cons x xs)
  define best where "best = pq_top (\<lambda>a b. SellOrderComparator (mem ob a) (mem ob b)) x xs"
  show ?thesis
  proof (cases "0 < remainingQuantity (mem ob inc) \<and> isCompatibleWith (mem ob inc) (mem ob best)")
    case False
    then have "matchBuyLoop inc trades ob = Inr (trades, ob)"
      using Cons by (subst matchBuyLoop.simps) (auto simp: best_def Let_def)
    moreover from False have "\<not> isCompatibleWith (mem ob inc) (mem ob best)"
      unfolding isCompatibleWith_def by (auto split: if_splits)
    ultimately show ?thesis using Cons by (intro stop) (auto simp: best_def)
  next
    case True
    define q where "q = min (remainingQuantity (mem ob inc)) (remainingQuantity (mem ob best))"
    define p where "p = (if isMarket (mem ob best) then
              (if isMarket (mem ob inc) then lastTradePrice ob else price (mem ob inc))
            else price (mem ob best))"
    define ob1 where "ob1 = ob\<lparr>sellOrders :=
      pq_pop (\<lambda>a b. SellOrderComparator (mem ob a) (mem ob b)) (sellOrders ob)\<rparr>"
    from True have compat: "isCompatibleWith (mem ob inc) (mem ob best)"
      and pos: "0 < remainingQuantity (mem ob inc)" by auto
    from compat have posb: "0 < remainingQuantity (mem ob best)" and ne: "inc \<noteq> best"
      unfolding isCompatibleWith_def by (auto split: if_splits)
    have q: "0 < q" "q \<le> remainingQuantity (mem ob1 inc)" "q \<le> remainingQuantity (mem ob1 best)"
      using pos posb by (auto simp: q_def ob1_def)
    from executeTrade_success [OF q(1) q(2) q(3) ne, of p] obtain t ob2 where
      ex: "executeTrade inc best p q ob1 = Inr (t, ob2)"
      and m2: "mem ob2 = (mem ob1)(inc := filled q (mem ob1 inc), best := filled q (mem ob1 best))"
      and rest: "lastTradePrice ob2 = p" "sellOrders ob2 = sellOrders ob1"
        "buyOrders ob2 = buyOrders ob1" "bookSymbol ob2 = bookSymbol ob1"
        "buyOrderId t = orderId (mem ob1 inc)" "sellOrderId t = orderId (mem ob1 best)"
        "tradePrice t = p" "tradeQuantity t = q"
      by blast
    define ob3 where "ob3 = (if remainingQuantity (mem ob2 best) > 0 then
                              ob2\<lparr>sellOrders := pq_push best (sellOrders ob2)\<rparr>
                            else removeFromOrderBook (orderId (mem ob2 best)) ob2)"
    have unf: "matchBuyLoop inc trades ob = matchBuyLoop inc (trades @ [t]) ob3"
      apply (subst matchBuyLoop.simps)
      using Cons True ex unfolding best_def q_def p_def ob1_def ob3_def
      by (simp add: Let_def split del: if_split cong: if_cong)
    have rb: "remainingQuantity (mem ob2 best) = remainingQuantity (mem ob best) - q"
      using m2 ne by (simp add: filled_def ob1_def)
    show ?thesis
    proof (rule step [of x xs best q p ob3 t])
      show "sellOrders ob = x # xs" by fact
      show "best = pq_top (\<lambda>a b. SellOrderComparator (mem ob a) (mem ob b)) x xs"
        by (rule best_def)
      show "isCompatibleWith (mem ob inc) (mem ob best)" by fact
      show "q = min (remainingQuantity (mem ob inc)) (remainingQuantity (mem ob best))"
        by (rule q_def)
      show "p = (if isMarket (mem ob best) then
              (if isMarket (mem ob inc) then lastTradePrice ob else price (mem ob inc))
            else price (mem ob best))" by (rule p_def)
      show "mem ob3 = (mem ob)(inc := filled q (mem ob inc), best := filled q (mem ob best))"
        using m2 ne by (auto simp: ob3_def ob1_def fun_upd_twist)
      show "lastTradePrice ob3 = p" using rest by (simp add: ob3_def)
      show "sellOrders ob3 =
         (if q < remainingQuantity (mem ob best) then remove1 best (x # xs) @ [best]
          else remove1 best (x # xs))"
        using rest rb Cons by (auto simp: ob3_def ob1_def pq_pop_def pq_push_def best_def)
      show "buyOrders ob3 = buyOrders ob" using rest by (simp add: ob3_def ob1_def)
      show "bookSymbol ob3 = bookSymbol ob" using rest by (simp add: ob3_def ob1_def)
      show "sellOrderId t = orderId (mem ob best)" using rest by (simp add: ob1_def)
      show "buyOrderId t = orderId (mem ob inc)" using rest by (simp add: ob1_def)
      show "tradePrice t = p" by fact
      show "tradeQuantity t = q" by fact
      show "matchBuyLoop inc trades ob = matchBuyLoop inc (trades @ [t]) ob3" by (rule unf)
    qed
  qed
qed

lemma matchBuyLoop_rule [case_names stop step]:
  assumes stop: "\<And>trades ob. matchBuyLoop inc trades ob = Inr (trades, ob) \<Longrightarrow> P trades ob"
    and step: "\<And>trades ob x xs best q p trade ob3.
      sellOrders ob = x # xs \<Longrightarrow>
      best = pq_top (\<lambda>a b. SellOrderComparator (mem ob a) (mem ob b)) x xs \<Longrightarrow>
      isCompatibleWith (mem ob inc) (mem ob best) \<Longrightarrow>
      q = min (remainingQuantity (mem ob inc)) (remainingQuantity (mem ob best)) \<Longrightarrow>
      p = (if isMarket (mem ob best) then
              (if isMarket (mem ob inc) then lastTradePrice ob else price (mem ob inc))
            else price (mem ob best)) \<Longrightarrow>
      mem ob3 = (mem ob)(inc := filled q (mem ob inc), best := filled q (mem ob best)) \<Longrightarrow>
      lastTradePrice ob3 = p \<Longrightarrow>
      sellOrders ob3 =
         (if q < remainingQuantity (mem ob best) then remove1 best (x # xs) @ [best]
          else remove1 best (x # xs)) \<Longrightarrow>
      buyOrders ob3 = buyOrders ob \<Longrightarrow>
      bookSymbol ob3 = bookSymbol ob \<Longrightarrow>
      sellOrderId trade = orderId (mem ob best) \<Longrightarrow>
      buyOrderId trade = orderId (mem ob inc) \<Longrightarrow>
      tradePrice trade = p \<Longrightarrow>
      tradeQuantity trade = q \<Longrightarrow>
      matchBuyLoop inc trades ob = matchBuyLoop inc (trades @ [trade]) ob3 \<Longrightarrow>
      P (trades @ [trade]) ob3 \<Longrightarrow> P trades ob"
  shows "P trades ob"
proof (induction "nat (remainingQuantity (mem ob inc))" arbitrary: trades ob rule: less_induct)
  case less
  show ?case
  proof (cases rule: matchBuyLoop_unfold [of inc trades ob])
    case stop
    from stop(1) show ?thesis by (rule assms(1))
  next
    case (step x xs best q p trade ob3)
    from step(3) have "0 < remainingQuantity (mem ob inc)" "0 < remainingQuantity (mem ob best)"
      "inc \<noteq> best"
      unfolding isCompatibleWith_def by (auto split: if_splits)
    then have "nat (remainingQuantity (mem ob3 inc)) < nat (remainingQuantity (mem ob inc))"
      using step(4,6) by (simp add: filled_def)
    then have "P (trades @ [trade]) ob3" by (rule less)
    with step show ?thesis by (rule assms(2))
  qed
qed

lemma matchBuyLoop_total: "\<exists>res ob'. matchBuyLoop inc trades ob = Inr (res, ob')"
  by (induction trades ob rule: matchBuyLoop_rule [where inc = inc]) auto

lemma matchBuyLoop_priced:
  assumes "\<forall>a. static (mem ob a) = static (mem ob0 a)"
    and "set (sellOrders ob) \<subseteq> set (sellOrders ob0)"
  shows "\<exists>new ob'. matchBuyLoop inc trades ob = Inr (trades @ new, ob') \<and>
           priced sellOrderId (mem ob0 ` set (sellOrders ob0)) (mem ob0 inc) (lastTradePrice ob) new"
  using assms
proof (induction trades ob rule: matchBuyLoop_rule [where inc = inc])
  case (stop trades ob)
  then show ?case by simp
next
  case (step trades ob x xs best q p trade ob3)
  have st: "\<forall>a. static (mem ob3 a) = static (mem ob0 a)"
    using step.prems(1) step(6) by (simp add: static_filled)
  have bq: "best \<in> set (sellOrders ob)"
    using step(1,2) pq_top_mem [of "\<lambda>a b. SellOrderComparator (mem ob a) (mem ob b)" x xs] by simp
  have sub: "set (sellOrders ob3) \<subseteq> set (sellOrders ob0)"
    using step.prems(2) step(1,8) bq set_remove1_subset [of best "x # xs"] by auto
  from step.IH [OF st sub] obtain new ob' where
    res: "matchBuyLoop inc (trades @ [trade]) ob3 = Inr ((trades @ [trade]) @ new, ob')"
    and pr: "priced sellOrderId (mem ob0 ` set (sellOrders ob0)) (mem ob0 inc) (lastTradePrice ob3) new"
    by blast
  have same: "orderId (mem ob best) = orderId (mem ob0 best)" "otype (mem ob best) = otype (mem ob0 best)"
    "price (mem ob best) = price (mem ob0 best)" "otype (mem ob inc) = otype (mem ob0 inc)"
    "price (mem ob inc) = price (mem ob0 inc)"
    using step.prems(1) by (auto dest: static_fields)
  have here: "\<exists>m\<in>mem ob0 ` set (sellOrders ob0). sellOrderId trade = orderId m \<and>
      tradePrice trade = (if otype m = MARKET then
         (if otype (mem ob0 inc) = MARKET then lastTradePrice ob else price (mem ob0 inc))
       else price m)"
    using bq step.prems(2) step(5,11,13) same
    by (intro bexI [of _ "mem ob0 best"]) (auto simp: isMarket_def)
  have "priced sellOrderId (mem ob0 ` set (sellOrders ob0)) (mem ob0 inc) (lastTradePrice ob) (trade # new)"
    using here pr step(7,13) by simp
  then show ?case using res step(15) by auto
qed



lemma matchBuyLoop_taker:
  "\<exists>new ob'. matchBuyLoop inc trades ob = Inr (trades @ new, ob') \<and>
     (if new = [] then ob' = ob
      else status (mem ob' inc) =
             (if remainingQuantity (mem ob' inc) = 0 then FILLED else PARTIAL_FILL))"
proof (induction trades ob rule: matchBuyLoop_rule [where inc = inc])
  case (stop trades ob)
  then show ?case by simp
next
  case (step trades ob x xs best q p trade ob3)
  from step(3) have ne: "inc \<noteq> best"
    unfolding isCompatibleWith_def by (auto split: if_splits)
  then have "status (mem ob3 inc) =
      (if remainingQuantity (mem ob3 inc) = 0 then FILLED else PARTIAL_FILL)"
    using step(6) by (simp add: filled_def)
  with step.IH step(15) show ?case by (auto split: if_splits)
qed

lemma matchBuyLoop_static:
  assumes "\<forall>a. static (mem ob a) = static (mem ob0 a)"
  shows "\<exists>res ob'. matchBuyLoop inc trades ob = Inr (res, ob') \<and>
           (\<forall>a. static (mem ob' a) = static (mem ob0 a))"
  using assms
proof (induction trades ob rule: matchBuyLoop_rule [where inc = inc])
  case (stop trades ob)
  then show ?case by simp
next
  case (step trades ob x xs best q p trade ob3)
  have "\<forall>a. static (mem ob3 a) = static (mem ob0 a)"
    using step.prems step(6) by simp
  from step.IH [OF this] step(15) show ?case by simp
qed

lemma matchBuyLoop_none:
  assumes "sellOrders ob = [] \<or>
       (\<exists>x xs. sellOrders ob = x # xs \<and>
          \<not> isCompatibleWith (mem ob inc)
              (mem ob (pq_top (\<lambda>a b. SellOrderComparator (mem ob a) (mem ob b)) x xs)))"
  shows "matchBuyLoop inc trades ob = Inr (trades, ob)"
proof (cases rule: matchBuyLoop_unfold [of inc trades ob])
  case stop
  then show ?thesis by simp
next
  case (step x xs best q p trade ob3)
  with assms show ?thesis by auto
qed

lemma matchBuyLoop_first:
  assumes "sellOrders ob = x # xs"
    and "best = pq_top (\<lambda>a b. SellOrderComparator (mem ob a) (mem ob b)) x xs"
    and "isCompatibleWith (mem ob inc) (mem ob best)"
  shows "\<exists>t new ob'. matchBuyLoop inc trades ob = Inr (trades @ t # new, ob') \<and>
           sellOrderId t = orderId (mem ob best) \<and> buyOrderId t = orderId (mem ob inc) \<and>
           tradePrice t =
             (if isMarket (mem ob best) then
                (if isMarket (mem ob inc) then lastTradePrice ob else price (mem ob inc))
              else price (mem ob best)) \<and>
           tradeQuantity t =
             min (remainingQuantity (mem ob inc)) (remainingQuantity (mem ob best))"
proof (cases rule: matchBuyLoop_unfold [of inc trades ob])
  case stop
  with assms show ?thesis by auto
next
  case (step x' xs' best' q p trade ob3)
  with assms have b: "best' = best" by simp
  from matchBuyLoop_taker [of inc "trades @ [trade]" ob3] obtain new ob' where
    "matchBuyLoop inc (trades @ [trade]) ob3 = Inr ((trades @ [trade]) @ new, ob')" by blast
  with step b show ?thesis by auto
qed

lemma matchBuyLoop_conserve:
  "\<exists>new ob'. matchBuyLoop inc trades ob = Inr (trades @ new, ob') \<and>
     remainingQuantity (mem ob' inc) =
       remainingQuantity (mem ob inc) - sum_list (map tradeQuantity new) \<and>
     (\<forall>t\<in>set new. 0 < tradeQuantity t)"
proof (induction trades ob rule: matchBuyLoop_rule [where inc = inc])
  case (stop trades ob)
  then show ?case by simp
next
  case (step trades ob x xs best q p trade ob3)
  from step(3) have ne: "inc \<noteq> best" and pos: "0 < q"
    using step(4) unfolding isCompatibleWith_def by (auto split: if_splits)
  then have "remainingQuantity (mem ob3 inc) = remainingQuantity (mem ob inc) - q"
    using step(6) by (simp add: filled_def)
  with step.IH step(14,15) pos show ?case by auto
qed

text \<open>The same for the second loop, with the two sides exchanged.\<close>

lemma matchSellLoop_unfold:
  obtains (stop) "matchSellLoop inc trades ob = Inr (trades, ob)"
      "buyOrders ob = [] \<or>
       (\<exists>x xs. buyOrders ob = x # xs \<and>
          \<not> isCompatibleWith (mem ob inc)
              (mem ob (pq_top (\<lambda>a b. BuyOrderComparator (mem ob a) (mem ob b)) x xs)))"
  | (step) x xs best q p trade ob3 where
      "buyOrders ob = x # xs"
      "best = pq_top (\<lambda>a b. BuyOrderComparator (mem ob a) (mem ob b)) x xs"
      "isCompatibleWith (mem ob inc) (mem ob best)"
      "q = min (remainingQuantity (mem ob inc)) (remainingQuantity (mem ob best))"
      "p = (if isMarket (mem ob best) then
              (if isMarket (mem ob inc) then lastTradePrice ob else price (mem ob inc))
            else price (mem ob best))"
      "mem ob3 = (mem ob)(inc := filled q (mem ob inc), best := filled q (mem ob best))"
      "lastTradePrice ob3 = p"
      "buyOrders ob3 =
         (if q < remainingQuantity (mem ob best) then remove1 best (x # xs) @ [best]
          else remove1 best (x # xs))"
      "sellOrders ob3 = sellOrders ob"
      "bookSymbol ob3 = bookSymbol ob"
      "buyOrderId trade = orderId (mem ob best)"
      "sellOrderId trade = orderId (mem ob inc)"
      "tradePrice trade = p"
      "tradeQuantity trade = q"
      "matchSellLoop inc trades ob = matchSellLoop inc (trades @ [trade]) ob3"
proof (cases "buyOrders ob")
  case Nil
  then have "matchSellLoop inc trades ob = Inr (trades, ob)"
    by (simp add: matchSellLoop.simps)
  then show ?thesis using Nil by (intro stop) auto
next
  case (Cons x xs)
  define best where "best = pq_top (\<lambda>a b. BuyOrderComparator (mem ob a) (mem ob b)) x xs"
  show ?thesis
  proof (cases "0 < remainingQuantity (mem ob inc) \<and> isCompatibleWith (mem ob inc) (mem ob best)")
    case False
    then have "matchSellLoop inc trades ob = Inr (trades, ob)"
      using Cons by (subst matchSellLoop.simps) (auto simp: best_def Let_def)
    moreover from False have "\<not> isCompatibleWith (mem ob inc) (mem ob best)"
      unfolding isCompatibleWith_def by (auto split: if_splits)
    ultimately show ?thesis using Cons by (intro stop) (auto simp: best_def)
  next
    case True
    define q where "q = min (remainingQuantity (mem ob inc)) (remainingQuantity (mem ob best))"
    define p where "p = (if isMarket (mem ob best) then
              (if isMarket (mem ob inc) then lastTradePrice ob else price (mem ob inc))
            else price (mem ob best))"
    define ob1 where "ob1 = ob\<lparr>buyOrders :=
      pq_pop (\<lambda>a b. BuyOrderComparator (mem ob a) (mem ob b)) (buyOrders ob)\<rparr>"
    from True have compat: "isCompatibleWith (mem ob inc) (mem ob best)"
      and pos: "0 < remainingQuantity (mem ob inc)" by auto
    from compat have posb: "0 < remainingQuantity (mem ob best)" and ne: "inc \<noteq> best"
      unfolding isCompatibleWith_def by (auto split: if_splits)
    have q: "0 < q" "q \<le> remainingQuantity (mem ob1 inc)" "q \<le> remainingQuantity (mem ob1 best)"
      using pos posb by (auto simp: q_def ob1_def)
    from executeTrade_success [OF q(1) q(3) q(2) ne [symmetric], of p] obtain t ob2 where
      ex: "executeTrade best inc p q ob1 = Inr (t, ob2)"
      and m2: "mem ob2 = (mem ob1)(best := filled q (mem ob1 best), inc := filled q (mem ob1 inc))"
      and rest: "lastTradePrice ob2 = p" "buyOrders ob2 = buyOrders ob1"
        "sellOrders ob2 = sellOrders ob1" "bookSymbol ob2 = bookSymbol ob1"
        "buyOrderId t = orderId (mem ob1 best)" "sellOrderId t = orderId (mem ob1 inc)"
        "tradePrice t = p" "tradeQuantity t = q"
      by blast
    define ob3 where "ob3 = (if remainingQuantity (mem ob2 best) > 0 then
                              ob2\<lparr>buyOrders := pq_push best (buyOrders ob2)\<rparr>
                            else removeFromOrderBook (orderId (mem ob2 best)) ob2)"
    have unf: "matchSellLoop inc trades ob = matchSellLoop inc (trades @ [t]) ob3"
      apply (subst matchSellLoop.simps)
      using Cons True ex unfolding best_def q_def p_def ob1_def ob3_def
      by (simp add: Let_def split del: if_split cong: if_cong)
    have rb: "remainingQuantity (mem ob2 best) = remainingQuantity (mem ob best) - q"
      using m2 ne by (simp add: filled_def ob1_def)
    show ?thesis
    proof (rule step [of x xs best q p ob3 t])
      show "buyOrders ob = x # xs" by fact
      show "best = pq_top (\<lambda>a b. BuyOrderComparator (mem ob a) (mem ob b)) x xs"
        by (rule best_def)
      show "isCompatibleWith (mem ob inc) (mem ob best)" by fact
      show "q = min (remainingQuantity (mem ob inc)) (remainingQuantity (mem ob best))"
        by (rule q_def)
      show "p = (if isMarket (mem ob best) then
              (if isMarket (mem ob inc) then lastTradePrice ob else price (mem ob inc))
            else price (mem ob best))" by (rule p_def)
      show "mem ob3 = (mem ob)(inc := filled q (mem ob inc), best := filled q (mem ob best))"
        using m2 ne by (auto simp: ob3_def ob1_def fun_upd_twist)
      show "lastTradePrice ob3 = p" using rest by (simp add: ob3_def)
      show "buyOrders ob3 =
         (if q < remainingQuantity (mem ob best) then remove1 best (x # xs) @ [best]
          else remove1 best (x # xs))"
        using rest rb Cons by (auto simp: ob3_def ob1_def pq_pop_def pq_push_def best_def)
      show "sellOrders ob3 = sellOrders ob" using rest by (simp add: ob3_def ob1_def)
      show "bookSymbol ob3 = bookSymbol ob" using rest by (simp add: ob3_def ob1_def)
      show "buyOrderId t = orderId (mem ob best)" using rest by (simp add: ob1_def)
      show "sellOrderId t = orderId (mem ob inc)" using rest by (simp add: ob1_def)
      show "tradePrice t = p" by fact
      show "tradeQuantity t = q" by fact
      show "matchSellLoop inc trades ob = matchSellLoop inc (trades @ [t]) ob3" by (rule unf)
    qed
  qed
qed

lemma matchSellLoop_rule [case_names stop step]:
  assumes stop: "\<And>trades ob. matchSellLoop inc trades ob = Inr (trades, ob) \<Longrightarrow> P trades ob"
    and step: "\<And>trades ob x xs best q p trade ob3.
      buyOrders ob = x # xs \<Longrightarrow>
      best = pq_top (\<lambda>a b. BuyOrderComparator (mem ob a) (mem ob b)) x xs \<Longrightarrow>
      isCompatibleWith (mem ob inc) (mem ob best) \<Longrightarrow>
      q = min (remainingQuantity (mem ob inc)) (remainingQuantity (mem ob best)) \<Longrightarrow>
      p = (if isMarket (mem ob best) then
              (if isMarket (mem ob inc) then lastTradePrice ob else price (mem ob inc))
            else price (mem ob best)) \<Longrightarrow>
      mem ob3 = (mem ob)(inc := filled q (mem ob inc), best := filled q (mem ob best)) \<Longrightarrow>
      lastTradePrice ob3 = p \<Longrightarrow>
      buyOrders ob3 =
         (if q < remainingQuantity (mem ob best) then remove1 best (x # xs) @ [best]
          else remove1 best (x # xs)) \<Longrightarrow>
      sellOrders ob3 = sellOrders ob \<Longrightarrow>
      bookSymbol ob3 = bookSymbol ob \<Longrightarrow>
      buyOrderId trade = orderId (mem ob best) \<Longrightarrow>
      sellOrderId trade = orderId (mem ob inc) \<Longrightarrow>
      tradePrice trade = p \<Longrightarrow>
      tradeQuantity trade = q \<Longrightarrow>
      matchSellLoop inc trades ob = matchSellLoop inc (trades @ [trade]) ob3 \<Longrightarrow>
      P (trades @ [trade]) ob3 \<Longrightarrow> P trades ob"
  shows "P trades ob"
proof (induction "nat (remainingQuantity (mem ob inc))" arbitrary: trades ob rule: less_induct)
  case less
  show ?case
  proof (cases rule: matchSellLoop_unfold [of inc trades ob])
    case stop
    from stop(1) show ?thesis by (rule assms(1))
  next
    case (step x xs best q p trade ob3)
    from step(3) have "0 < remainingQuantity (mem ob inc)" "0 < remainingQuantity (mem ob best)"
      "inc \<noteq> best"
      unfolding isCompatibleWith_def by (auto split: if_splits)
    then have "nat (remainingQuantity (mem ob3 inc)) < nat (remainingQuantity (mem ob inc))"
      using step(4,6) by (simp add: filled_def)
    then have "P (trades @ [trade]) ob3" by (rule less)
    with step show ?thesis by (rule assms(2))
  qed
qed

lemma matchSellLoop_total: "\<exists>res ob'. matchSellLoop inc trades ob = Inr (res, ob')"
  by (induction trades ob rule: matchSellLoop_rule [where inc = inc]) auto

lemma matchSellLoop_priced:
  assumes "\<forall>a. static (mem ob a) = static (mem ob0 a)"
    and "set (buyOrders ob) \<subseteq> set (buyOrders ob0)"
  shows "\<exists>new ob'. matchSellLoop inc trades ob = Inr (trades @ new, ob') \<and>
           priced buyOrderId (mem ob0 ` set (buyOrders ob0)) (mem ob0 inc) (lastTradePrice ob) new"
  using assms
proof (induction trades ob rule: matchSellLoop_rule [where inc = inc])
  case (stop trades ob)
  then show ?case by simp
next
  case (step trades ob x xs best q p trade ob3)
  have st: "\<forall>a. static (mem ob3 a) = static (mem ob0 a)"
    using step.prems(1) step(6) by (simp add: static_filled)
  have bq: "best \<in> set (buyOrders ob)"
    using step(1,2) pq_top_mem [of "\<lambda>a b. BuyOrderComparator (mem ob a) (mem ob b)" x xs] by simp
  have sub: "set (buyOrders ob3) \<subseteq> set (buyOrders ob0)"
    using step.prems(2) step(1,8) bq set_remove1_subset [of best "x # xs"] by auto
  from step.IH [OF st sub] obtain new ob' where
    res: "matchSellLoop inc (trades @ [trade]) ob3 = Inr ((trades @ [trade]) @ new, ob')"
    and pr: "priced buyOrderId (mem ob0 ` set (buyOrders ob0)) (mem ob0 inc) (lastTradePrice ob3) new"
    by blast
  have same: "orderId (mem ob best) = orderId (mem ob0 best)" "otype (mem ob best) = otype (mem ob0 best)"
    "price (mem ob best) = price (mem ob0 best)" "otype (mem ob inc) = otype (mem ob0 inc)"
    "price (mem ob inc) = price (mem ob0 inc)"
    using step.prems(1) by (auto dest: static_fields)
  have here: "\<exists>m\<in>mem ob0 ` set (buyOrders ob0). buyOrderId trade = orderId m \<and>
      tradePrice trade = (if otype m = MARKET then
         (if otype (mem ob0 inc) = MARKET then lastTradePrice ob else price (mem ob0 inc))
       else price m)"
    using bq step.prems(2) step(5,11,13) same
    by (intro bexI [of _ "mem ob0 best"]) (auto simp: isMarket_def)
  have "priced buyOrderId (mem ob0 ` set (buyOrders ob0)) (mem ob0 inc) (lastTradePrice ob) (trade # new)"
    using here pr step(7,13) by simp
  then show ?case using res step(15) by auto
qed



lemma matchSellLoop_taker:
  "\<exists>new ob'. matchSellLoop inc trades ob = Inr (trades @ new, ob') \<and>
     (if new = [] then ob' = ob
      else status (mem ob' inc) =
             (if remainingQuantity (mem ob' inc) = 0 then FILLED else PARTIAL_FILL))"
proof (induction trades ob rule: matchSellLoop_rule [where inc = inc])
  case (stop trades ob)
  then show ?case by simp
next
  case (step trades ob x xs best q p trade ob3)
  from step(3) have ne: "inc \<noteq> best"
    unfolding isCompatibleWith_def by (auto split: if_splits)
  then have "status (mem ob3 inc) =
      (if remainingQuantity (mem ob3 inc) = 0 then FILLED else PARTIAL_FILL)"
    using step(6) by (simp add: filled_def)
  with step.IH step(15) show ?case by (auto split: if_splits)
qed

lemma matchSellLoop_static:
  assumes "\<forall>a. static (mem ob a) = static (mem ob0 a)"
  shows "\<exists>res ob'. matchSellLoop inc trades ob = Inr (res, ob') \<and>
           (\<forall>a. static (mem ob' a) = static (mem ob0 a))"
  using assms
proof (induction trades ob rule: matchSellLoop_rule [where inc = inc])
  case (stop trades ob)
  then show ?case by simp
next
  case (step trades ob x xs best q p trade ob3)
  have "\<forall>a. static (mem ob3 a) = static (mem ob0 a)"
    using step.prems step(6) by simp
  from step.IH [OF this] step(15) show ?case by simp
qed

lemma matchSellLoop_none:
  assumes "buyOrders ob = [] \<or>
       (\<exists>x xs. buyOrders ob = x # xs \<and>
          \<not> isCompatibleWith (mem ob inc)
              (mem ob (pq_top (\<lambda>a b. BuyOrderComparator (mem ob a) (mem ob b)) x xs)))"
  shows "matchSellLoop inc trades ob = Inr (trades, ob)"
proof (cases rule: matchSellLoop_unfold [of inc trades ob])
  case stop
  then show ?thesis by simp
next
  case (step x xs best q p trade ob3)
  with assms show ?thesis by auto
qed

lemma matchSellLoop_first:
  assumes "buyOrders ob = x # xs"
    and "best = pq_top (\<lambda>a b. BuyOrderComparator (mem ob a) (mem ob b)) x xs"
    and "isCompatibleWith (mem ob inc) (mem ob best)"
  shows "\<exists>t new ob'. matchSellLoop inc trades ob = Inr (trades @ t # new, ob') \<and>
           buyOrderId t = orderId (mem ob best) \<and> sellOrderId t = orderId (mem ob inc) \<and>
           tradePrice t =
             (if isMarket (mem ob best) then
                (if isMarket (mem ob inc) then lastTradePrice ob else price (mem ob inc))
              else price (mem ob best)) \<and>
           tradeQuantity t =
             min (remainingQuantity (mem ob inc)) (remainingQuantity (mem ob best))"
proof (cases rule: matchSellLoop_unfold [of inc trades ob])
  case stop
  with assms show ?thesis by auto
next
  case (step x' xs' best' q p trade ob3)
  with assms have b: "best' = best" by simp
  from matchSellLoop_taker [of inc "trades @ [trade]" ob3] obtain new ob' where
    "matchSellLoop inc (trades @ [trade]) ob3 = Inr ((trades @ [trade]) @ new, ob')" by blast
  with step b show ?thesis by auto
qed

lemma matchSellLoop_conserve:
  "\<exists>new ob'. matchSellLoop inc trades ob = Inr (trades @ new, ob') \<and>
     remainingQuantity (mem ob' inc) =
       remainingQuantity (mem ob inc) - sum_list (map tradeQuantity new) \<and>
     (\<forall>t\<in>set new. 0 < tradeQuantity t)"
proof (induction trades ob rule: matchSellLoop_rule [where inc = inc])
  case (stop trades ob)
  then show ?case by simp
next
  case (step trades ob x xs best q p trade ob3)
  from step(3) have ne: "inc \<noteq> best" and pos: "0 < q"
    using step(4) unfolding isCompatibleWith_def by (auto split: if_splits)
  then have "remainingQuantity (mem ob3 inc) = remainingQuantity (mem ob inc) - q"
    using step(6) by (simp add: filled_def)
  with step.IH step(14,15) pos show ?case by auto
qed

section \<open>Running the scenarios\<close>

text \<open>
  The scenario orders are what the constructor builds from valid arguments, and
  \<open>book_defs\<close> are the equations that run the book on given orders.
\<close>

lemma scenario_order_constructed:
  assumes "oid \<noteq> []" and "0 < q" and "ty = LIMIT \<and> 0 < p \<or> ty = MARKET \<or> ty = STOP_LOSS \<and> 0 < trig"
  shows "Order_ctor oid ''alice'' ''AAPL'' ty sd p q trig now =
           Inr (scenario_order oid ty sd p q trig now)"
  using assms unfolding Order_ctor_def scenario_order_def by auto

lemmas book_defs =
  addOrder_def matchOrder_def matchBuyLoop.simps matchSellLoop.simps executeTrade_def
  addToOrderBook_def removeFromOrderBook_def cancelOrder_def checkStopLossOrders_def
  generateTradeId_def to_string_def fillOrder_def isCompatibleWith_def
  isBuy_def isSell_def isMarket_def isStopLoss_def
  BuyOrderComparator_def SellOrderComparator_def StopLossBuyComparator_def
  StopLossSellComparator_def pq_pop_def pq_push_def rebalance_def
  getBestBid_def getBestAsk_def getUserOrders_def
  OrderBook_ctor_def scenario_order_def Let_def

section \<open>Properties of \<open>matchOrder\<close> and \<open>addOrder\<close>\<close>


lemma matchOrder_taker:
  "\<exists>trades ob1. matchOrder a ob = Inr (trades, ob1) \<and>
     (if trades = [] then ob1 = ob
      else status (mem ob1 a) =
             (if remainingQuantity (mem ob1 a) = 0 then FILLED else PARTIAL_FILL))"
  using matchBuyLoop_taker [of a "[]" ob] matchSellLoop_taker [of a "[]" ob]
  unfolding matchOrder_def by auto

lemma matchOrder_empty_queue:
  assumes "(if side (mem ob a) = BUY then sellOrders ob else buyOrders ob) = []"
  shows "matchOrder a ob = Inr ([], ob)"
  using assms unfolding matchOrder_def isBuy_def
  by (cases "side (mem ob a)") (simp_all add: matchBuyLoop.simps matchSellLoop.simps)

lemma addToOrderBook_effect:
  "mem (addToOrderBook a ob) = mem ob"
  "a \<in> set (if side (mem ob a) = BUY then buyOrders (addToOrderBook a ob)
            else sellOrders (addToOrderBook a ob))"
  "orderMap (addToOrderBook a ob) = (orderMap ob)(orderId (mem ob a) \<mapsto> a)"
  "userOrders (addToOrderBook a ob) (userId (mem ob a)) =
     Some (getUserOrders (userId (mem ob a)) ob @ [a])"
  "buyStopLossOrders (addToOrderBook a ob) = buyStopLossOrders ob"
  "sellStopLossOrders (addToOrderBook a ob) = sellStopLossOrders ob"
  unfolding addToOrderBook_def getUserOrders_def isBuy_def pq_push_def
  by (simp_all add: Let_def)

lemma matchOrder_static:
  assumes "matchOrder a ob = Inr (trades, ob1)"
  shows "static (mem ob1 b) = static (mem ob b)"
proof -
  have "\<forall>a. static (mem ob a) = static (mem ob a)" by simp
  from matchBuyLoop_static [OF this, of a "[]"] matchSellLoop_static [OF this, of a "[]"] assms
  show ?thesis unfolding matchOrder_def by (auto split: if_splits)
qed

lemma matchOrder_conserve:
  "\<exists>trades ob1. matchOrder a ob = Inr (trades, ob1) \<and>
     remainingQuantity (mem ob1 a) =
       remainingQuantity (mem ob a) - sum_list (map tradeQuantity trades) \<and>
     (\<forall>t\<in>set trades. 0 < tradeQuantity t)"
  using matchBuyLoop_conserve [of a "[]" ob] matchSellLoop_conserve [of a "[]" ob]
  unfolding matchOrder_def by auto

lemma matchOrder_first:
  "case oppositeTop ob a of
     None \<Rightarrow> matchOrder a ob = Inr ([], ob)
   | Some best \<Rightarrow>
       if isCompatibleWith (mem ob a) (mem ob best) then
         (\<exists>t new ob1. matchOrder a ob = Inr (t # new, ob1) \<and>
            makerId (mem ob a) t = orderId (mem ob best) \<and>
            tradePrice t =
              (if isMarket (mem ob best) then
                 (if isMarket (mem ob a) then lastTradePrice ob else price (mem ob a))
               else price (mem ob best)) \<and>
            tradeQuantity t =
              min (remainingQuantity (mem ob a)) (remainingQuantity (mem ob best)))
       else matchOrder a ob = Inr ([], ob)"
proof (cases "isBuy (mem ob a)")
  case True
  show ?thesis
  proof (cases "sellOrders ob")
    case Nil
    with True matchBuyLoop_none [of ob a "[]"] show ?thesis
      by (simp add: oppositeTop_def matchOrder_def)
  next
    case (Cons x xs)
    define best where "best = pq_top (\<lambda>a b. SellOrderComparator (mem ob a) (mem ob b)) x xs"
    show ?thesis
    proof (cases "isCompatibleWith (mem ob a) (mem ob best)")
      case c: True
      from matchBuyLoop_first [OF Cons best_def c, of "[]"] True Cons c show ?thesis
        by (auto simp: oppositeTop_def matchOrder_def makerId_def best_def)
    next
      case c: False
      with Cons have "matchBuyLoop a [] ob = Inr ([], ob)"
        by (intro matchBuyLoop_none) (auto simp: best_def)
      with True Cons c show ?thesis
        by (simp add: oppositeTop_def matchOrder_def best_def)
    qed
  qed
next
  case False
  show ?thesis
  proof (cases "buyOrders ob")
    case Nil
    with False matchSellLoop_none [of ob a "[]"] show ?thesis
      by (simp add: oppositeTop_def matchOrder_def)
  next
    case (Cons x xs)
    define best where "best = pq_top (\<lambda>a b. BuyOrderComparator (mem ob a) (mem ob b)) x xs"
    show ?thesis
    proof (cases "isCompatibleWith (mem ob a) (mem ob best)")
      case c: True
      from matchSellLoop_first [OF Cons best_def c, of "[]"] False Cons c show ?thesis
        by (auto simp: oppositeTop_def matchOrder_def makerId_def best_def)
    next
      case c: False
      with Cons have "matchSellLoop a [] ob = Inr ([], ob)"
        by (intro matchSellLoop_none) (auto simp: best_def)
      with False Cons c show ?thesis
        by (simp add: oppositeTop_def matchOrder_def best_def)
    qed
  qed
qed

lemma priced_nth:
  assumes "priced sel M tk lp ts" and "i < length ts"
  shows "\<exists>m\<in>M. sel (ts ! i) = orderId m \<and>
           tradePrice (ts ! i) =
             (if otype m = MARKET then
                (if otype tk = MARKET then (if i = 0 then lp else tradePrice (ts ! (i - 1)))
                 else price tk)
              else price m)"
  using assms
proof (induction ts arbitrary: lp i)
  case Nil
  then show ?case by simp
next
  case (Cons t ts)
  show ?case
  proof (cases i)
    case 0
    with Cons.prems show ?thesis by (fastforce split: if_splits)
  next
    case (Suc j)
    with Cons.prems have "priced sel M tk (tradePrice t) ts" and "j < length ts" by auto
    from Cons.IH [OF this] show ?thesis using Suc by (cases j) auto
  qed
qed

lemma matchOrder_priced:
  assumes "matchOrder a ob = Inr (trades, ob1)" and "i < length trades"
  shows "\<exists>maker\<in>set (if isBuy (mem ob a) then sellOrders ob else buyOrders ob).
           makerId (mem ob a) (trades ! i) = orderId (mem ob maker) \<and>
           tradePrice (trades ! i) =
             (if otype (mem ob maker) = MARKET then
                (if otype (mem ob a) = MARKET then
                   (if i = 0 then lastTradePrice ob else tradePrice (trades ! (i - 1)))
                 else price (mem ob a))
              else price (mem ob maker))"
proof (cases "isBuy (mem ob a)")
  case True
  from matchBuyLoop_priced [of ob ob a "[]"] assms(1) True
  have "priced sellOrderId (mem ob ` set (sellOrders ob)) (mem ob a) (lastTradePrice ob) trades"
    by (auto simp: matchOrder_def)
  from priced_nth [OF this assms(2)] show ?thesis using True by (auto simp: makerId_def)
next
  case False
  from matchSellLoop_priced [of ob ob a "[]"] assms(1) False
  have "priced buyOrderId (mem ob ` set (buyOrders ob)) (mem ob a) (lastTradePrice ob) trades"
    by (auto simp: matchOrder_def)
  from priced_nth [OF this assms(2)] show ?thesis using False by (auto simp: makerId_def)
qed

lemma addOrder_nonstop:
  assumes "symbol (mem ob a) = bookSymbol ob" and "otype (mem ob a) \<noteq> STOP_LOSS"
    and "matchOrder a ob = Inr (trades, ob1)"
  shows "\<exists>ob'. addOrder (Some a) ob = Inr (trades, ob') \<and> mem ob' = mem ob1 \<and>
           ob' = (if 0 < remainingQuantity (mem ob1 a) then addToOrderBook a ob1 else ob1)"
  using assms unfolding addOrder_def
  by (simp add: isStopLoss_def checkStopLossOrders_def Let_def addToOrderBook_effect(1))

lemma addOrder_stop:
  assumes "symbol (mem ob a) = bookSymbol ob" and "otype (mem ob a) = STOP_LOSS"
  shows "\<exists>ob'. addOrder (Some a) ob = Inr ([], ob') \<and> mem ob' = mem ob"
  using assms unfolding addOrder_def
  by (simp add: isStopLoss_def Let_def addToOrderBook_effect(1))

section \<open>Trade prices\<close>

text \<open>
  C1, as the code has it. An order whose symbol is the book's is never rejected:
  \<open>addOrder\<close> returns its trades. Every trade was made with a maker that rested in the
  opposite queue when the call began, and its price is the maker's price; when the maker
  is MARKET it is the taker's price if the taker is LIMIT, and otherwise the last trade
  price as it stands when the trade is made: the book's \<open>lastTradePrice\<close> on entry for
  the first trade, the price of the trade before for the later ones. Whenever the taker
  is not a stop-loss order and is compatible with the top of the opposite queue, a
  first trade is made with that top at this price, whatever the last trade price is:
  two MARKET orders on a book with \<open>lastTradePrice = 0\<close> trade at 0. Otherwise there is
  no trade. The taker's status afterwards is unchanged when nothing traded, and FILLED
  or PARTIAL_FILL after a trade; it is never set to REJECTED.
\<close>

theorem addOrder_trade_prices:
  assumes "symbol (mem ob taker) = bookSymbol ob"
  shows "\<exists>trades ob'. addOrder (Some taker) ob = Inr (trades, ob') \<and>
     (\<forall>i<length trades.
        \<exists>maker\<in>set (if isBuy (mem ob taker) then sellOrders ob else buyOrders ob).
          makerId (mem ob taker) (trades ! i) = orderId (mem ob maker) \<and>
          tradePrice (trades ! i) =
            policyPrice (mem ob maker) (mem ob taker)
              (if i = 0 then lastTradePrice ob else tradePrice (trades ! (i - 1)))) \<and>
     (case oppositeTop ob taker of
        None \<Rightarrow> trades = []
      | Some best \<Rightarrow>
          if otype (mem ob taker) \<noteq> STOP_LOSS \<and>
             isCompatibleWith (mem ob taker) (mem ob best)
          then trades \<noteq> [] \<and>
               makerId (mem ob taker) (hd trades) = orderId (mem ob best) \<and>
               tradePrice (hd trades) =
                 policyPrice (mem ob best) (mem ob taker) (lastTradePrice ob) \<and>
               tradeQuantity (hd trades) =
                 min (remainingQuantity (mem ob taker)) (remainingQuantity (mem ob best))
          else trades = []) \<and>
     status (mem ob' taker) =
       (if trades = [] then status (mem ob taker)
        else if remainingQuantity (mem ob' taker) = 0 then FILLED else PARTIAL_FILL)"
proof (cases "otype (mem ob taker) = STOP_LOSS")
  case True
  from addOrder_stop [OF assms True] obtain ob' where
    "addOrder (Some taker) ob = Inr ([], ob')" and "mem ob' = mem ob" by blast
  with True show ?thesis by (auto split: option.splits)
next
  case False
  from matchOrder_taker [of taker ob] obtain trades ob1 where
    m: "matchOrder taker ob = Inr (trades, ob1)"
    and st: "if trades = [] then ob1 = ob
      else status (mem ob1 taker) =
             (if remainingQuantity (mem ob1 taker) = 0 then FILLED else PARTIAL_FILL)"
    by blast
  from addOrder_nonstop [OF assms False m] obtain ob' where
    add: "addOrder (Some taker) ob = Inr (trades, ob')" and mem: "mem ob' = mem ob1" by blast
  have pol: "\<And>mk lp. (if otype mk = MARKET then
                (if otype (mem ob taker) = MARKET then lp else price (mem ob taker))
              else price mk) = policyPrice mk (mem ob taker) lp"
    using False by (cases "otype (mem ob taker)") (auto simp: policyPrice_def)
  have c1: "\<forall>i<length trades.
        \<exists>maker\<in>set (if isBuy (mem ob taker) then sellOrders ob else buyOrders ob).
          makerId (mem ob taker) (trades ! i) = orderId (mem ob maker) \<and>
          tradePrice (trades ! i) =
            policyPrice (mem ob maker) (mem ob taker)
              (if i = 0 then lastTradePrice ob else tradePrice (trades ! (i - 1)))"
  proof (intro allI impI)
    fix i
    assume "i < length trades"
    from matchOrder_priced [OF m this] show
      "\<exists>maker\<in>set (if isBuy (mem ob taker) then sellOrders ob else buyOrders ob).
          makerId (mem ob taker) (trades ! i) = orderId (mem ob maker) \<and>
          tradePrice (trades ! i) =
            policyPrice (mem ob maker) (mem ob taker)
              (if i = 0 then lastTradePrice ob else tradePrice (trades ! (i - 1)))"
      unfolding pol [symmetric] by (auto split: if_splits)
  qed
  have c2: "case oppositeTop ob taker of
        None \<Rightarrow> trades = []
      | Some best \<Rightarrow>
          if otype (mem ob taker) \<noteq> STOP_LOSS \<and>
             isCompatibleWith (mem ob taker) (mem ob best)
          then trades \<noteq> [] \<and>
               makerId (mem ob taker) (hd trades) = orderId (mem ob best) \<and>
               tradePrice (hd trades) =
                 policyPrice (mem ob best) (mem ob taker) (lastTradePrice ob) \<and>
               tradeQuantity (hd trades) =
                 min (remainingQuantity (mem ob taker)) (remainingQuantity (mem ob best))
          else trades = []"
    using matchOrder_first [where ob = ob and a = taker] m False
    unfolding pol [symmetric] by (auto simp: isMarket_def split: option.splits if_splits)
  have c3: "status (mem ob' taker) =
       (if trades = [] then status (mem ob taker)
        else if remainingQuantity (mem ob' taker) = 0 then FILLED else PARTIAL_FILL)"
    using st mem by (auto split: if_splits)
  from add c1 c2 c3 show ?thesis by blast
qed

text \<open>
  Scenario S4 of the specification: a LIMIT SELL at 99 rests, a LIMIT BUY at 100
  arrives; the one trade is made at the maker's 99. And on a fresh book, where a MARKET
  SELL rests and the last trade price is 0, a MARKET BUY is compatible with it, so by
  the theorem it trades, at the price 0.
\<close>

theorem addOrder_trade_prices_witness:
  "(\<exists>ob1 t ob2. addOrder (Some 0) (OrderBook_ctor ''AAPL'' s4_mem) = Inr ([], ob1) \<and>
      addOrder (Some 1) ob1 = Inr ([t], ob2) \<and> sellOrderId t = ''S1'' \<and> tradePrice t = 99 \<and>
      tradeQuantity t = 10 \<and> status (mem ob2 1) = FILLED) \<and>
   (\<exists>ob1 trades ob2. addOrder (Some 0) (OrderBook_ctor ''AAPL'' mm_mem) = Inr ([], ob1) \<and>
      lastTradePrice ob1 = 0 \<and> addOrder (Some 1) ob1 = Inr (trades, ob2) \<and>
      trades \<noteq> [] \<and> sellOrderId (hd trades) = ''M1'' \<and> tradePrice (hd trades) = 0 \<and>
      tradeQuantity (hd trades) = 5)"
proof -
  have "\<exists>ob1 t ob2. addOrder (Some 0) (OrderBook_ctor ''AAPL'' s4_mem) = Inr ([], ob1) \<and>
     addOrder (Some 1) ob1 = Inr ([t], ob2) \<and>
     (symbol (mem ob1 1) = bookSymbol ob1 \<and> oppositeTop ob1 1 = Some 0 \<and>
      isBuy (mem ob1 1) \<and> otype (mem ob1 1) = LIMIT \<and>
      isCompatibleWith (mem ob1 1) (mem ob1 0) \<and>
      otype (mem ob1 0) = LIMIT \<and> price (mem ob1 0) = 99 \<and> orderId (mem ob1 0) = ''S1'' \<and>
      remainingQuantity (mem ob1 0) = 10 \<and> remainingQuantity (mem ob1 1) = 10 \<and>
      remainingQuantity (mem ob2 1) = 0)"
    by (simp add: book_defs oppositeTop_def s4_mem_def)
  then obtain ob1 t ob2 where
    a: "addOrder (Some 0) (OrderBook_ctor ''AAPL'' s4_mem) = Inr ([], ob1)"
    and b: "addOrder (Some 1) ob1 = Inr ([t], ob2)"
    and s: "symbol (mem ob1 1) = bookSymbol ob1"
    and c: "oppositeTop ob1 1 = Some 0" "isBuy (mem ob1 1)" "otype (mem ob1 1) = LIMIT"
      "isCompatibleWith (mem ob1 1) (mem ob1 0)"
      "otype (mem ob1 0) = LIMIT" "price (mem ob1 0) = 99" "orderId (mem ob1 0) = ''S1''"
      "remainingQuantity (mem ob1 0) = 10" "remainingQuantity (mem ob1 1) = 10"
      "remainingQuantity (mem ob2 1) = 0"
    by blast
  from addOrder_trade_prices [OF s] b c
  have "sellOrderId t = ''S1'' \<and> tradePrice t = 99 \<and> tradeQuantity t = 10 \<and>
      status (mem ob2 1) = FILLED"
    by (auto simp: makerId_def policyPrice_def)
  with a b have first: "\<exists>ob1 t ob2.
      addOrder (Some 0) (OrderBook_ctor ''AAPL'' s4_mem) = Inr ([], ob1) \<and>
      addOrder (Some 1) ob1 = Inr ([t], ob2) \<and> sellOrderId t = ''S1'' \<and> tradePrice t = 99 \<and>
      tradeQuantity t = 10 \<and> status (mem ob2 1) = FILLED"
    by blast
  have "\<exists>m1. addOrder (Some 0) (OrderBook_ctor ''AAPL'' mm_mem) = Inr ([], m1) \<and>
     lastTradePrice m1 = 0 \<and>
     (symbol (mem m1 1) = bookSymbol m1 \<and> oppositeTop m1 1 = Some 0 \<and>
      isBuy (mem m1 1) \<and> otype (mem m1 1) = MARKET \<and>
      isCompatibleWith (mem m1 1) (mem m1 0) \<and>
      otype (mem m1 0) = MARKET \<and> orderId (mem m1 0) = ''M1'' \<and>
      remainingQuantity (mem m1 0) = 5 \<and> remainingQuantity (mem m1 1) = 5)"
    by (simp add: book_defs oppositeTop_def mm_mem_def)
  then obtain m1 where
    ma: "addOrder (Some 0) (OrderBook_ctor ''AAPL'' mm_mem) = Inr ([], m1)"
    and ml: "lastTradePrice m1 = 0"
    and ms: "symbol (mem m1 1) = bookSymbol m1"
    and mc: "oppositeTop m1 1 = Some 0" "isBuy (mem m1 1)" "otype (mem m1 1) = MARKET"
      "isCompatibleWith (mem m1 1) (mem m1 0)"
      "otype (mem m1 0) = MARKET" "orderId (mem m1 0) = ''M1''"
      "remainingQuantity (mem m1 0) = 5" "remainingQuantity (mem m1 1) = 5"
    by blast
  from addOrder_trade_prices [OF ms] mc ml
  have "\<exists>trades ob2. addOrder (Some 1) m1 = Inr (trades, ob2) \<and>
      trades \<noteq> [] \<and> sellOrderId (hd trades) = ''M1'' \<and> tradePrice (hd trades) = 0 \<and>
      tradeQuantity (hd trades) = 5"
    by (auto simp: makerId_def policyPrice_def)
  with ma ml have second: "\<exists>ob1 trades ob2.
      addOrder (Some 0) (OrderBook_ctor ''AAPL'' mm_mem) = Inr ([], ob1) \<and>
      lastTradePrice ob1 = 0 \<and> addOrder (Some 1) ob1 = Inr (trades, ob2) \<and>
      trades \<noteq> [] \<and> sellOrderId (hd trades) = ''M1'' \<and> tradePrice (hd trades) = 0 \<and>
      tradeQuantity (hd trades) = 5"
    by blast
  from first second show ?thesis by blast
qed

text \<open>
  C1 as stated fails where both orders are MARKET and no trade has been made yet: on a
  fresh book a MARKET SELL of 5 rests, and a MARKET BUY of 5 then trades with it at the
  price 0, which is \<open>lastTradePrice\<close>; the call returns the trade and the buy order is
  FILLED, not rejected.
\<close>

theorem no_reference_price_counterexample:
  "\<exists>ob1 t ob2. addOrder (Some 0) (OrderBook_ctor ''AAPL'' mm_mem) = Inr ([], ob1) \<and>
     lastTradePrice ob1 = 0 \<and> addOrder (Some 1) ob1 = Inr ([t], ob2) \<and>
     buyOrderId t = ''M2'' \<and> sellOrderId t = ''M1'' \<and> tradePrice t = 0 \<and>
     tradeQuantity t = 5 \<and> status (mem ob2 1) = FILLED \<and> lastTradePrice ob2 = 0"
  by (simp add: book_defs mm_mem_def)

section \<open>Price-time priority\<close>



section \<open>Market orders with an unmatched remainder\<close>

text \<open>
  C2, as the code has it. A MARKET order whose symbol is the book's is always accepted.
  Each trade has a positive quantity, and what the order has left afterwards is what it
  had before less the quantities of its trades: nothing is discarded. When something is
  left, the order is put into the queue of its own side, the id map and its user's list,
  like any other order. Its status is what matching made of it: unchanged when nothing
  traded, and after a trade FILLED when nothing remains and PARTIAL_FILL otherwise; it
  is never set to REJECTED. When the opposite queue is empty there is no trade.
\<close>

theorem market_remainder_rests:
  assumes "symbol (mem ob a) = bookSymbol ob" and "otype (mem ob a) = MARKET"
  shows "\<exists>trades ob'. addOrder (Some a) ob = Inr (trades, ob') \<and>
           remainingQuantity (mem ob' a) =
             remainingQuantity (mem ob a) - sum_list (map tradeQuantity trades) \<and>
           (\<forall>t\<in>set trades. 0 < tradeQuantity t) \<and>
           status (mem ob' a) =
             (if trades = [] then status (mem ob a)
              else if remainingQuantity (mem ob' a) = 0 then FILLED else PARTIAL_FILL) \<and>
           (0 < remainingQuantity (mem ob' a) \<longrightarrow>
              a \<in> set (if side (mem ob a) = BUY then buyOrders ob' else sellOrders ob') \<and>
              orderMap ob' (orderId (mem ob a)) = Some a \<and>
              a \<in> set (getUserOrders (userId (mem ob a)) ob')) \<and>
           ((if side (mem ob a) = BUY then sellOrders ob else buyOrders ob) = [] \<longrightarrow>
              trades = [])"
proof -
  from matchOrder_taker [of a ob] obtain trades ob1 where
    m: "matchOrder a ob = Inr (trades, ob1)"
    and st: "if trades = [] then ob1 = ob
      else status (mem ob1 a) =
             (if remainingQuantity (mem ob1 a) = 0 then FILLED else PARTIAL_FILL)"
    by blast
  from assms(2) have ns: "otype (mem ob a) \<noteq> STOP_LOSS" by simp
  from addOrder_nonstop [OF assms(1) ns m] obtain ob' where
    add: "addOrder (Some a) ob = Inr (trades, ob')" and mem: "mem ob' = mem ob1"
    and ob': "ob' = (if 0 < remainingQuantity (mem ob1 a) then addToOrderBook a ob1 else ob1)"
    by blast
  have same: "side (mem ob1 a) = side (mem ob a)" "orderId (mem ob1 a) = orderId (mem ob a)"
    "userId (mem ob1 a) = userId (mem ob a)"
    using matchOrder_static [OF m, of a] by (auto dest: static_fields)
  have s0: "remainingQuantity (mem ob' a) =
             remainingQuantity (mem ob a) - sum_list (map tradeQuantity trades) \<and>
           (\<forall>t\<in>set trades. 0 < tradeQuantity t)"
    using matchOrder_conserve [of a ob] m mem by auto
  have s1: "status (mem ob' a) =
             (if trades = [] then status (mem ob a)
              else if remainingQuantity (mem ob' a) = 0 then FILLED else PARTIAL_FILL)"
    using st mem by (auto split: if_splits)
  have s2: "0 < remainingQuantity (mem ob' a) \<longrightarrow>
              a \<in> set (if side (mem ob a) = BUY then buyOrders ob' else sellOrders ob') \<and>
              orderMap ob' (orderId (mem ob a)) = Some a \<and>
              a \<in> set (getUserOrders (userId (mem ob a)) ob')"
    using mem same addToOrderBook_effect(2-4) [of a ob1]
    by (auto simp: ob' getUserOrders_def)
  have s3: "(if side (mem ob a) = BUY then sellOrders ob else buyOrders ob) = [] \<longrightarrow>
              trades = []"
    using m matchOrder_empty_queue [of ob a] by auto
  from add s0 s1 s2 s3 show ?thesis by blast
qed

text \<open>
  A LIMIT SELL at 100 for 3 rests and a MARKET BUY for 5 arrives: 3 are traded at 100
  and the buy order rests with the other 2.
\<close>

theorem market_remainder_rests_witness:
  "\<exists>ob1 t ob2. addOrder (Some 0) (OrderBook_ctor ''AAPL'' mr_mem) = Inr ([], ob1) \<and>
     addOrder (Some 1) ob1 = Inr ([t], ob2) \<and> tradeQuantity t = 3 \<and>
     remainingQuantity (mem ob2 1) = 2 \<and> status (mem ob2 1) = PARTIAL_FILL \<and>
     1 \<in> set (buyOrders ob2) \<and> orderMap ob2 ''M1'' = Some 1 \<and>
     1 \<in> set (getUserOrders ''alice'' ob2)"
proof -
  have "\<exists>ob1 t ob2. addOrder (Some 0) (OrderBook_ctor ''AAPL'' mr_mem) = Inr ([], ob1) \<and>
     addOrder (Some 1) ob1 = Inr ([t], ob2) \<and> tradeQuantity t = 3 \<and>
     remainingQuantity (mem ob2 1) = 2 \<and>
     (symbol (mem ob1 1) = bookSymbol ob1 \<and> otype (mem ob1 1) = MARKET \<and>
      side (mem ob1 1) = BUY \<and> orderId (mem ob1 1) = ''M1'' \<and> userId (mem ob1 1) = ''alice'')"
    by (simp add: book_defs mr_mem_def)
  then obtain ob1 t ob2 where
    a: "addOrder (Some 0) (OrderBook_ctor ''AAPL'' mr_mem) = Inr ([], ob1)"
    and b: "addOrder (Some 1) ob1 = Inr ([t], ob2)" "tradeQuantity t = 3"
      "remainingQuantity (mem ob2 1) = 2"
    and c: "symbol (mem ob1 1) = bookSymbol ob1" "otype (mem ob1 1) = MARKET"
    and d: "side (mem ob1 1) = BUY" "orderId (mem ob1 1) = ''M1''" "userId (mem ob1 1) = ''alice''"
    by blast
  from market_remainder_rests [OF c] a b d show ?thesis by auto
qed

text \<open>
  C2 as stated fails. On a fresh book a MARKET BUY for 5 makes no trade, but it is not
  rejected and not discarded: it rests in the buy queue and the id map with status
  PENDING. And in the scenario above the remainder of 2 rests with status PARTIAL_FILL,
  where the claim has it discarded and the order FILLED.
\<close>

theorem market_order_rests_counterexample:
  "(\<exists>ob1. addOrder (Some 0) (OrderBook_ctor ''AAPL'' m5_mem) = Inr ([], ob1) \<and>
      buyOrders ob1 = [0] \<and> orderMap ob1 ''M1'' = Some 0 \<and>
      status (mem ob1 0) = PENDING \<and> remainingQuantity (mem ob1 0) = 5) \<and>
   (\<exists>ob1 t ob2. addOrder (Some 0) (OrderBook_ctor ''AAPL'' mr_mem) = Inr ([], ob1) \<and>
      addOrder (Some 1) ob1 = Inr ([t], ob2) \<and> tradeQuantity t = 3 \<and>
      buyOrders ob2 = [1] \<and> orderMap ob2 ''M1'' = Some 1 \<and>
      status (mem ob2 1) = PARTIAL_FILL \<and> remainingQuantity (mem ob2 1) = 2)"
  by (simp add: book_defs m5_mem_def mr_mem_def)

section \<open>Stop-loss orders\<close>

text \<open>
  C3. Two STOP_LOSS SELL orders with the trigger price 90 and the price 0 are added,
  and then a LIMIT BUY at 100, each for 5. Both stop orders are accepted with no trade
  and recorded in the id map, but the second one, whose trigger price is that of the
  first, is not in the stop-loss tree. And the first stop order, still PENDING and never
  triggered, is the maker of a trade: \<open>addToOrderBook\<close> has also pushed it into the
  sell queue, where the buyer at 100 meets it and buys its 5 at the stop order's price 0.
\<close>

theorem pending_stop_loss_is_matched:
  "\<exists>ob1 ob2 t ob3.
     addOrder (Some 0) (OrderBook_ctor ''AAPL'' st_mem) = Inr ([], ob1) \<and>
     addOrder (Some 1) ob1 = Inr ([], ob2) \<and>
     orderMap ob2 ''ST1'' = Some 0 \<and> 0 \<in> elems (sellStopLossOrders ob2) \<and>
     orderMap ob2 ''ST2'' = Some 1 \<and> 1 \<notin> elems (sellStopLossOrders ob2) \<and>
     otype (mem ob2 0) = STOP_LOSS \<and> status (mem ob2 0) = PENDING \<and>
     sellOrders ob2 = [0, 1] \<and>
     addOrder (Some 2) ob2 = Inr ([t], ob3) \<and>
     sellOrderId t = ''ST1'' \<and> buyOrderId t = ''B1'' \<and> tradePrice t = 0 \<and>
     tradeQuantity t = 5 \<and> status (mem ob3 0) = FILLED \<and>
     0 \<in> elems (sellStopLossOrders ob3)"
  by (simp add: book_defs st_mem_def)

section \<open>Cancellation\<close>

text \<open>
  C8, as the code has it. \<open>cancelOrder\<close> answers with a boolean. For an id that is not in
  the id map it returns false and changes nothing. For an id that is in the map it
  returns true, whatever the status of the order: the status becomes CANCELLED, the id
  is erased from the id map, and the pointers to orders with this id are erased from the
  list of the order's user. After that the id is not in the map, so cancelling it again
  returns false and changes nothing.
\<close>

theorem cancelOrder_effect:
  "(case orderMap ob oid of
      None \<Rightarrow> cancelOrder oid ob = (False, ob)
    | Some p \<Rightarrow>
        (\<exists>ob'. cancelOrder oid ob = (True, ob') \<and>
           mem ob' = (mem ob)(p := (mem ob p)\<lparr>status := CANCELLED\<rparr>) \<and>
           orderMap ob' = (orderMap ob)(oid := None) \<and>
           userOrders ob' = (userOrders ob)
             (userId (mem ob p) \<mapsto>
                filter (\<lambda>x. \<not> orderId (mem ob x) = oid) (getUserOrders (userId (mem ob p)) ob)) \<and>
           cancelOrder oid ob' = (False, ob')))"
proof (cases "orderMap ob oid")
  case None
  then show ?thesis by (simp add: cancelOrder_def)
next
  case (Some p)
  have same: "(\<lambda>x. \<not> orderId (((mem ob)(p := (mem ob p)\<lparr>status := CANCELLED\<rparr>)) x) = oid)
      = (\<lambda>x. \<not> orderId (mem ob x) = oid)"
    by (rule ext) simp
  show ?thesis
    using Some same
    by (simp add: cancelOrder_def removeFromOrderBook_def getUserOrders_def Let_def)
qed

text \<open>A LIMIT SELL at 100 for 5, added and then cancelled.\<close>

theorem cancelOrder_effect_witness:
  "\<exists>ob1 ob2. addOrder (Some 0) (OrderBook_ctor ''AAPL'' cx_mem) = Inr ([], ob1) \<and>
     orderMap ob1 ''S1'' = Some 0 \<and>
     cancelOrder ''S1'' ob1 = (True, ob2) \<and> status (mem ob2 0) = CANCELLED \<and>
     orderMap ob2 ''S1'' = None \<and> userOrders ob2 ''alice'' = Some [] \<and>
     cancelOrder ''S1'' ob2 = (False, ob2)"
proof -
  have "\<exists>ob1. addOrder (Some 0) (OrderBook_ctor ''AAPL'' cx_mem) = Inr ([], ob1) \<and>
     orderMap ob1 ''S1'' = Some 0 \<and> userOrders ob1 ''alice'' = Some [0] \<and>
     userId (mem ob1 0) = ''alice'' \<and> orderId (mem ob1 0) = ''S1''"
    by (simp add: book_defs cx_mem_def)
  then obtain ob1 where
    a: "addOrder (Some 0) (OrderBook_ctor ''AAPL'' cx_mem) = Inr ([], ob1)"
    and b: "orderMap ob1 ''S1'' = Some 0"
    and c: "userOrders ob1 ''alice'' = Some [0]" "userId (mem ob1 0) = ''alice''"
      "orderId (mem ob1 0) = ''S1''"
    by blast
  from cancelOrder_effect [where ob = ob1 and oid = "''S1''"] b c obtain ob2 where
    "cancelOrder ''S1'' ob1 = (True, ob2)" "status (mem ob2 0) = CANCELLED"
    "orderMap ob2 ''S1'' = None" "userOrders ob2 ''alice'' = Some []"
    "cancelOrder ''S1'' ob2 = (False, ob2)"
    by (auto simp: getUserOrders_def)
  with a b show ?thesis by blast
qed

text \<open>
  C8 as stated fails in this scenario. After the cancellation the order is CANCELLED,
  and cancelling it again gives the same answer as cancelling an id the book has never
  seen: false; there is no third answer. The cancelled order is still in the sell queue.
  And when the same order object is added again it is in the id map with status
  CANCELLED, and cancelling it returns true and erases it from the map.
\<close>

theorem cancel_terminal_counterexample:
  "\<exists>ob1 ob2 ob3 ob4.
     addOrder (Some 0) (OrderBook_ctor ''AAPL'' cx_mem) = Inr ([], ob1) \<and>
     cancelOrder ''S1'' ob1 = (True, ob2) \<and>
     status (mem ob2 0) = CANCELLED \<and>
     cancelOrder ''S1'' ob2 = (False, ob2) \<and> cancelOrder ''X9'' ob2 = (False, ob2) \<and>
     sellOrders ob2 = [0] \<and>
     addOrder (Some 0) ob2 = Inr ([], ob3) \<and>
     orderMap ob3 ''S1'' = Some 0 \<and> status (mem ob3 0) = CANCELLED \<and>
     cancelOrder ''S1'' ob3 = (True, ob4) \<and> orderMap ob4 ''S1'' = None"
  by (simp add: book_defs cx_mem_def)

section \<open>Where the code departs from its own description\<close>

text \<open>
  C4. Scenario S6 of the specification: a LIMIT SELL at 120 for 10 rests; a STOP_LOSS
  BUY with trigger 100 for 10 is placed; a LIMIT SELL at 100 for 1 is seeded and a LIMIT
  BUY at 120 for 1 trades with it at 100. The trade price has reached the trigger, and
  \<open>addOrder\<close> calls \<open>checkStopLossOrders\<close> with it, but the stop order does not fire: it
  is still PENDING with its 10 in the stop-loss tree, the seller at 120 is untouched,
  and the last trade price is 100.
\<close>

theorem stop_loss_never_fires:
  "\<exists>ob1 ob2 ob3 t ob4.
     addOrder (Some 0) (OrderBook_ctor ''AAPL'' s6_mem) = Inr ([], ob1) \<and>
     addOrder (Some 1) ob1 = Inr ([], ob2) \<and>
     addOrder (Some 2) ob2 = Inr ([], ob3) \<and>
     addOrder (Some 3) ob3 = Inr ([t], ob4) \<and>
     buyOrderId t = ''B120'' \<and> sellOrderId t = ''S100'' \<and> tradePrice t = 100 \<and>
     triggerPrice (mem ob4 1) \<le> tradePrice t \<and>
     1 \<in> elems (buyStopLossOrders ob4) \<and> otype (mem ob4 1) = STOP_LOSS \<and>
     status (mem ob4 1) = PENDING \<and> remainingQuantity (mem ob4 1) = 10 \<and>
     status (mem ob4 0) = PENDING \<and> remainingQuantity (mem ob4 0) = 10 \<and>
     lastTradePrice ob4 = 100 \<and> totalTrades ob4 = 1"
  by (simp add: book_defs s6_mem_def)

text \<open>
  C5. Two LIMIT SELL orders rest, at 90 and at 95; the one at 90 is cancelled, which
  leaves it at the top of the sell queue. A LIMIT BUY at 100 then finds the cancelled
  order at the top, makes no trade and rests. The book is crossed: the best bid is 100,
  the best ask that \<open>getBestAsk\<close> reports is the cancelled 90, and the live sell order at
  95 rests below the bid.
\<close>

theorem crossed_book_after_cancel:
  "\<exists>ob1 ob2 ob3 ob4.
     addOrder (Some 0) (OrderBook_ctor ''AAPL'' cr_mem) = Inr ([], ob1) \<and>
     addOrder (Some 1) ob1 = Inr ([], ob2) \<and>
     cancelOrder ''S1'' ob2 = (True, ob3) \<and>
     addOrder (Some 2) ob3 = Inr ([], ob4) \<and>
     getBestBid ob4 = 100 \<and> getBestAsk ob4 = 90 \<and>
     buyOrders ob4 = [2] \<and> sellOrders ob4 = [0, 1] \<and>
     orderMap ob4 ''B1'' = Some 2 \<and> status (mem ob4 2) = PENDING \<and>
     orderMap ob4 ''S2'' = Some 1 \<and> status (mem ob4 1) = PENDING \<and>
     price (mem ob4 1) = 95 \<and> remainingQuantity (mem ob4 1) = 5"
  by (simp add: book_defs cr_mem_def)

text \<open>
  C7. A LIMIT SELL at 100 is added and cancelled, and a STOP_LOSS BUY is added. The
  cancelled order is gone from the id map but still holds its slot in the sell queue;
  the stop order, which is in the id map, holds a slot in the buy stop-loss tree and
  one in the buy queue.
\<close>

theorem book_map_mismatch:
  "\<exists>ob1 ob2 ob3.
     addOrder (Some 0) (OrderBook_ctor ''AAPL'' mp_mem) = Inr ([], ob1) \<and>
     cancelOrder ''S1'' ob1 = (True, ob2) \<and>
     addOrder (Some 1) ob2 = Inr ([], ob3) \<and>
     orderMap ob3 ''S1'' = None \<and> sellOrders ob3 = [0] \<and> orderId (mem ob3 0) = ''S1'' \<and>
     orderMap ob3 ''ST1'' = Some 1 \<and> buyOrders ob3 = [1] \<and>
     elems (buyStopLossOrders ob3) = {1}"
  by (simp add: book_defs mp_mem_def)

end
